theory Spec2Isabelle
  imports Complex_Main
begin

section \<open>Errors and floating point\<close>

text \<open>
  The segmentation core of \<^verbatim>\<open>mmd_uuunyaa_tools/editors/segmentation.py\<close> is embedded
  here. Python floats are modelled as reals; every exception the source can raise is a
  value of \<open>py_error\<close>, and a computation that may raise returns \<open>py_error + 'a\<close>.
\<close>

datatype py_error =
  ZeroDivisionError | ValueError | KeyError | IndexError | UnboundLocalError | RuntimeError

definition and_then :: "py_error + 'a \<Rightarrow> ('a \<Rightarrow> py_error + 'b) \<Rightarrow> py_error + 'b" where
  "and_then r f = (case r of Inl e \<Rightarrow> Inl e | Inr x \<Rightarrow> f x)"

lemma and_then_Inl [simp]: "and_then (Inl e) f = Inl e"
  by (simp add: and_then_def)

lemma and_then_Inr [simp]: "and_then (Inr x) f = f x"
  by (simp add: and_then_def)

lemma and_then_weak_cong: "r = r' \<Longrightarrow> and_then r f = and_then r' f"
  by simp

definition py_div :: "real \<Rightarrow> real \<Rightarrow> py_error + real" where
  "py_div a b = (if b = 0 then Inl ZeroDivisionError else Inr (a / b))"

definition py_sqrt :: "real \<Rightarrow> py_error + real" where
  "py_sqrt a = (if a < 0 then Inl ValueError else Inr (sqrt a))"

definition SQRT_PI :: real where
  "SQRT_PI = sqrt pi"

definition area_to_circumference :: "real \<Rightarrow> py_error + real" where
  "area_to_circumference a = and_then (py_sqrt a) (\<lambda>r. py_div r SQRT_PI)"

section \<open>Segments and contacts\<close>

text \<open>
  \<open>Segment\<close> and \<open>SegmentContact\<close> are mutable objects compared by their index. The
  model keeps them in two stores indexed by that index; a contact refers to its two
  segments by index. Sets whose iteration order the source depends on are lists without
  duplicates.
\<close>

record segment =
  area :: real
  perimeter :: real
  non_contact_perimeter :: real
  tri_loop0s :: "nat set"
  segment_contact_ids :: "nat list"

record segment_contact =
  cost :: real
  cost_normalized :: real
  sc_length :: real
  segment0 :: nat
  segment1 :: nat

definition segment_replace :: "segment_contact \<Rightarrow> nat \<Rightarrow> nat \<Rightarrow> segment_contact \<times> bool" where
  "segment_replace sc src dst =
     (if segment0 sc = src then
        (let sc1 = sc\<lparr>segment0 := dst\<rparr>
         in (if segment1 sc1 = src then sc1\<lparr>segment1 := dst\<rparr> else sc1, True))
      else if segment1 sc = src then (sc\<lparr>segment1 := dst\<rparr>, True)
      else (sc, False))"

definition calc_perimeter_cost :: "(nat \<Rightarrow> segment) \<Rightarrow> segment_contact \<Rightarrow> py_error + real" where
  "calc_perimeter_cost segs sc =
     (let segment0_perimeter = perimeter (segs (segment0 sc));
          segment0_area = area (segs (segment0 sc));
          segment1_perimeter = perimeter (segs (segment1 sc));
          segment1_area = area (segs (segment1 sc))
      in and_then (area_to_circumference segment0_area) (\<lambda>c0.
         and_then (py_div segment0_perimeter c0) (\<lambda>r0.
         and_then (py_div segment0_area r0) (\<lambda>q0.
         and_then (area_to_circumference segment1_area) (\<lambda>c1.
         and_then (py_div segment1_perimeter c1) (\<lambda>r1.
         and_then (py_div segment1_area r1) (\<lambda>q1.
         and_then (py_div (segment0_area + segment1_area) (q0 + q1)) (\<lambda>mean_ratio.
         and_then (area_to_circumference (segment0_area + segment1_area)) (\<lambda>cm.
         and_then (py_div (segment0_perimeter + segment1_perimeter - 2 * sc_length sc) cm)
           (\<lambda>merged_ratio.
         and_then (py_div merged_ratio mean_ratio) (\<lambda>q.
         Inr (max (q - 1) 0))))))))))))"

section \<open>Pair identifiers\<close>

text \<open>
  \<^verbatim>\<open>int(math.log2(n) / 2 + 1)\<close>: \<open>math.log2\<close> raises \<open>ValueError\<close> at 0; for
  \<open>n > 0\<close> the value is \<open>\<lfloor>log\<^sub>2 n\<rfloor> div 2 + 1\<close>.
\<close>

fun ilog2 :: "nat \<Rightarrow> nat" where
  "ilog2 n = (if n < 2 then 0 else Suc (ilog2 (n div 2)))"

definition pair_shift :: "nat \<Rightarrow> py_error + nat" where
  "pair_shift n = (if n = 0 then Inl ValueError else Inr (ilog2 n div 2 + 1))"

definition to_pair_id :: "nat \<Rightarrow> nat \<Rightarrow> nat \<Rightarrow> nat" where
  "to_pair_id index0 index1 shift =
     (if index0 > index1 then index1 + index0 * 2 ^ shift else index0 + index1 * 2 ^ shift)"

definition to_loop_pair_id :: "nat \<Rightarrow> nat \<Rightarrow> nat \<Rightarrow> nat" where
  "to_loop_pair_id loop0 loop1 loop_pair_shift = to_pair_id loop0 loop1 loop_pair_shift"

definition to_vertex_pair_id :: "nat \<Rightarrow> nat \<Rightarrow> nat \<Rightarrow> nat" where
  "to_vertex_pair_id vert0 vert1 vertex_pair_shift = to_pair_id vert0 vert1 vertex_pair_shift"

definition to_segment_pair_id :: "nat \<Rightarrow> nat \<Rightarrow> nat \<Rightarrow> nat" where
  "to_segment_pair_id s0 s1 segment_pair_shift = to_pair_id s0 s1 segment_pair_shift"

section \<open>Parameters and the state of the merge engine\<close>

text \<open>
  \<open>set_iter\<close> is the order in which the interpreter enumerates a set, given its elements in
  insertion order. The source fixes no such order, so it is a parameter.
\<close>

record params =
  cost_threshold :: real
  maximum_area_threshold :: real
  minimum_area_threshold :: real
  contact_length_factor :: real
  face_angle_cost_factor :: real
  perimeter_cost_factor :: real
  vertex_group_weight_cost_factor :: real
  vertex_group_change_cost_factor :: real
  material_change_cost_factor :: real
  edge_sharp_cost_factor :: real
  edge_seam_cost_factor :: real
  ignore_vertex_group_indices :: "nat set"
  set_iter :: "nat list \<Rightarrow> nat list"

text \<open>
  A \<open>graph\<close> is the stores of segment and contact objects and the keys of the dictionary
  \<open>sci2segment_contacts\<close>, in insertion order. An \<open>engine\<close> adds the local variables of
  \<open>auto_segment\<close> that its loops mutate. \<open>i_var\<close> is the local
  \<open>i\<close> of lines 347-359, unbound until its loop first assigns it. \<open>accepted\<close> and
  \<open>passes\<close> are ghost fields: the log of accepted merges (normalized cost, area of the
  destination and of the source when the merge is accepted) and the number of passes of
  the outer loop.
\<close>

record graph =
  segs :: "nat \<Rightarrow> segment"
  scs :: "nat \<Rightarrow> segment_contact"
  sci2segment_contacts :: "nat list"

record engine = graph +
  cost_sorted_segment_contacts :: "nat list"
  result_segments :: "nat list"
  result_loop_count :: nat
  last_merged_cost :: real
  merging :: bool
  i_var :: "nat option"
  accepted :: "(real \<times> real \<times> real) list"
  passes :: nat

definition set_add :: "nat \<Rightarrow> nat list \<Rightarrow> nat list" where
  "set_add x xs = (if x \<in> set xs then xs else xs @ [x])"

definition discard_contact_id :: "nat \<Rightarrow> nat \<Rightarrow> (nat \<Rightarrow> segment) \<Rightarrow> (nat \<Rightarrow> segment)" where
  "discard_contact_id s sci sg =
     sg(s := (sg s)\<lparr>segment_contact_ids := removeAll sci (segment_contact_ids (sg s))\<rparr>)"

definition add_contact_id :: "nat \<Rightarrow> nat \<Rightarrow> (nat \<Rightarrow> segment) \<Rightarrow> (nat \<Rightarrow> segment)" where
  "add_contact_id s sci sg =
     sg(s := (sg s)\<lparr>segment_contact_ids := set_add sci (segment_contact_ids (sg s))\<rparr>)"

function bisect_left_between :: "real list \<Rightarrow> real \<Rightarrow> nat \<Rightarrow> nat \<Rightarrow> nat" where
  "bisect_left_between ks x lo hi =
     (if lo < hi then
        (if ks ! ((lo + hi) div 2) < x then bisect_left_between ks x ((lo + hi) div 2 + 1) hi
         else bisect_left_between ks x lo ((lo + hi) div 2))
      else lo)"
  by pat_completeness auto
termination
  by (relation "measure (\<lambda>(ks, x, lo, hi). hi - lo)") auto

declare bisect_left_between.simps [simp del]

definition bisect_left :: "engine \<Rightarrow> real \<Rightarrow> nat" where
  "bisect_left st x =
     bisect_left_between (map (\<lambda>c. cost_normalized (scs st c)) (cost_sorted_segment_contacts st))
       x 0 (length (cost_sorted_segment_contacts st))"

definition delete_at :: "nat \<Rightarrow> 'a list \<Rightarrow> 'a list" where
  "delete_at i xs = take i xs @ drop (Suc i) xs"

definition insert_at :: "nat \<Rightarrow> 'a \<Rightarrow> 'a list \<Rightarrow> 'a list" where
  "insert_at i x xs = take i xs @ x # drop i xs"

definition remove_segment_contact :: "nat \<Rightarrow> engine \<Rightarrow> py_error + engine" where
  "remove_segment_contact sci st =
     (if sci \<notin> set (sci2segment_contacts st) then Inl KeyError
      else
        (let sc = scs st sci;
             st1 = st\<lparr>sci2segment_contacts := removeAll sci (sci2segment_contacts st)\<rparr>;
             st2 = st1\<lparr>segs := discard_contact_id (segment0 sc) sci (segs st1)\<rparr>;
             st3 = st2\<lparr>segs := discard_contact_id (segment1 sc) sci (segs st2)\<rparr>;
             cs = cost_sorted_segment_contacts st3
         in Inr (case find (\<lambda>i. cs ! i = sci) [bisect_left st3 (cost_normalized sc) ..< length cs] of
                   None \<Rightarrow> st3
                 | Some i \<Rightarrow> st3\<lparr>cost_sorted_segment_contacts := delete_at i cs\<rparr>)))"

section \<open>One accepted merge (lines 299-362)\<close>

text \<open>
  Lines 309-315: every contact of the source segment is re-pointed to the destination. A
  contact that becomes a self-loop is removed, which discards its index from the
  destination's index set; when source and destination are one object that set is the one
  being enumerated, and the interpreter raises \<open>RuntimeError\<close> at the next step.
\<close>

fun repoint :: "nat \<Rightarrow> nat \<Rightarrow> nat list \<Rightarrow> engine \<Rightarrow> py_error + engine" where
  "repoint src dst [] st = Inr st"
| "repoint src dst (src_sci # rest) st =
     (if src_sci \<notin> set (sci2segment_contacts st) then Inl KeyError
      else
        (case segment_replace (scs st src_sci) src dst of
           (sc, replaced) \<Rightarrow>
             if replaced then
               (if segment0 sc = segment1 sc then
                  and_then (remove_segment_contact src_sci (st\<lparr>scs := (scs st)(src_sci := sc)\<rparr>))
                    (\<lambda>st2. if src = dst then Inl RuntimeError else repoint src dst rest st2)
                else
                  repoint src dst rest
                    (st\<lparr>scs := (scs st)(src_sci := sc),
                        segs := add_contact_id dst src_sci (segs st)\<rparr>))
             else repoint src dst rest (st\<lparr>scs := (scs st)(src_sci := sc)\<rparr>)))"

text \<open>Lines 323-326.\<close>

definition update_perimeter :: "params \<Rightarrow> nat \<Rightarrow> engine \<Rightarrow> py_error + engine" where
  "update_perimeter p dst st =
     (if perimeter_cost_factor p \<noteq> 0 then
        (let ids = set_iter p (segment_contact_ids (segs st dst)) in
         if \<exists>sci \<in> set ids. sci \<notin> set (sci2segment_contacts st) then Inl KeyError
         else Inr (st\<lparr>segs := (segs st)(dst := (segs st dst)
                \<lparr>perimeter := non_contact_perimeter (segs st dst)
                     + sum_list (map (\<lambda>sci. sc_length (scs st sci)) ids)\<rparr>)\<rparr>))
      else Inr st)"

text \<open>Lines 329-333: the dictionary from segment pair ids to sets of contacts, in insertion order.\<close>

fun group_add :: "nat \<Rightarrow> nat \<Rightarrow> (nat \<times> nat list) list \<Rightarrow> (nat \<times> nat list) list" where
  "group_add spi c [] = [(spi, [c])]"
| "group_add spi c ((k, cs) # gs) =
     (if k = spi then (k, set_add c cs) # gs else (k, cs) # group_add spi c gs)"

fun collect_mergable :: "nat \<Rightarrow> engine \<Rightarrow> nat list \<Rightarrow> (nat \<times> nat list) list
    \<Rightarrow> py_error + (nat \<times> nat list) list" where
  "collect_mergable shift st [] gs = Inr gs"
| "collect_mergable shift st (edge_sci # rest) gs =
     (if edge_sci \<notin> set (sci2segment_contacts st) then Inl KeyError
      else collect_mergable shift st rest
             (group_add (to_segment_pair_id (segment0 (scs st edge_sci)) (segment1 (scs st edge_sci)) shift)
                edge_sci gs))"

text \<open>Lines 342-345: the other contacts of a group are summed into the survivor and removed.\<close>

fun fold_into :: "nat \<Rightarrow> nat list \<Rightarrow> engine \<Rightarrow> py_error + engine" where
  "fold_into merged_sc [] st = Inr st"
| "fold_into merged_sc (sc # rest) st =
     and_then
       (remove_segment_contact sc
          (st\<lparr>scs := (scs st)(merged_sc := (scs st merged_sc)
                \<lparr>cost := cost (scs st merged_sc) + cost (scs st sc),
                 sc_length := sc_length (scs st merged_sc) + sc_length (scs st sc)\<rparr>)\<rparr>))
       (fold_into merged_sc rest)"

text \<open>
  Lines 347-353: \<open>i\<close> ends at the position of the survivor, at the last index when the
  survivor is not met, and keeps its old value when the range is empty.
\<close>

definition locate :: "nat \<Rightarrow> engine \<Rightarrow> engine" where
  "locate merged_sc st =
     (let cs = cost_sorted_segment_contacts st;
          lo = bisect_left st (cost_normalized (scs st merged_sc))
      in st\<lparr>i_var := (case find (\<lambda>i. cs ! i = merged_sc) [lo ..< length cs] of
                          Some i \<Rightarrow> Some i
                        | None \<Rightarrow> if lo < length cs then Some (length cs - 1) else i_var st)\<rparr>)"

text \<open>Lines 356-358.\<close>

definition updated_cost_normalized :: "params \<Rightarrow> nat \<Rightarrow> engine \<Rightarrow> py_error + real" where
  "updated_cost_normalized p merged_sc st =
     and_then (if perimeter_cost_factor p \<noteq> 0
               then and_then (calc_perimeter_cost (segs st) (scs st merged_sc))
                      (\<lambda>c. Inr (perimeter_cost_factor p * c))
               else Inr 0) (\<lambda>pc.
     and_then (py_div (cost (scs st merged_sc))
                 (if contact_length_factor p > 0
                  then sc_length (scs st merged_sc) * contact_length_factor p else 1)) (\<lambda>q.
     Inr (pc + q)))"

text \<open>Line 359: \<open>pop(i)\<close>, then \<open>insort_left\<close> of the popped contact.\<close>

definition reposition :: "engine \<Rightarrow> py_error + engine" where
  "reposition st =
     (case i_var st of
        None \<Rightarrow> Inl UnboundLocalError
      | Some i \<Rightarrow>
          if i \<ge> length (cost_sorted_segment_contacts st) then Inl IndexError
          else
            (let x = cost_sorted_segment_contacts st ! i;
                 st1 = st\<lparr>cost_sorted_segment_contacts := delete_at i (cost_sorted_segment_contacts st)\<rparr>
             in Inr (st1\<lparr>cost_sorted_segment_contacts :=
                       insert_at (bisect_left st1 (cost_normalized (scs st1 x))) x
                         (cost_sorted_segment_contacts st1)\<rparr>)))"

text \<open>
  Lines 336-359, for one group and for the groups in turn. The survivor is the first
  contact the enumeration of the group yields; an enumeration that yields nothing for a
  group of two or more contacts cannot happen in the source and is an error here.
\<close>

definition merge_group :: "params \<Rightarrow> nat list \<Rightarrow> engine \<Rightarrow> py_error + engine" where
  "merge_group p mergable_segment_contacts st =
     (if length mergable_segment_contacts \<le> 1 then Inr st
      else
        (case set_iter p mergable_segment_contacts of
           [] \<Rightarrow> Inl RuntimeError
         | merged_sc # rest \<Rightarrow>
             and_then (fold_into merged_sc rest st) (\<lambda>st1.
             and_then (updated_cost_normalized p merged_sc (locate merged_sc st1)) (\<lambda>c.
             reposition ((locate merged_sc st1)
               \<lparr>scs := (scs st1)(merged_sc := (scs st1 merged_sc)\<lparr>cost_normalized := c\<rparr>)\<rparr>)))))"

fun merge_groups :: "params \<Rightarrow> (nat \<times> nat list) list \<Rightarrow> engine \<Rightarrow> py_error + engine" where
  "merge_groups p [] st = Inr st"
| "merge_groups p ((spi, g) # gs) st = and_then (merge_group p g st) (merge_groups p gs)"

text \<open>
  Lines 299-362. The result carries \<open>True\<close> when the destination became isolated (the
  source's \<open>continue\<close> at line 321) and \<open>False\<close> at the \<open>break\<close> of line 362.
\<close>

definition merge_segments :: "params \<Rightarrow> nat \<Rightarrow> nat \<Rightarrow> engine \<Rightarrow> py_error + engine \<times> bool" where
  "merge_segments p segment_pair_shift sci st =
     (let dst = segment0 (scs st sci);
          src = segment1 (scs st sci);
          src_segment_area = area (segs st src);
          st1 = st\<lparr>merging := True,
                   last_merged_cost := cost_normalized (scs st sci),
                   accepted := accepted st
                     @ [(cost_normalized (scs st sci), area (segs st dst), src_segment_area)]\<rparr>;
          st2 = st1\<lparr>segs := (segs st1)(dst := (segs st1 dst)
                   \<lparr>tri_loop0s := tri_loop0s (segs st1 dst) \<union> tri_loop0s (segs st1 src)\<rparr>)\<rparr>;
          st3 = st2\<lparr>segs := (segs st2)(dst := (segs st2 dst)
                   \<lparr>area := area (segs st2 dst) + src_segment_area\<rparr>)\<rparr>
      in and_then (remove_segment_contact sci st3) (\<lambda>st4.
         and_then (repoint src dst (set_iter p (segment_contact_ids (segs st4 src))) st4) (\<lambda>st5.
         if length (segment_contact_ids (segs st5 dst)) = 0 then
           Inr (st5\<lparr>result_segments := set_add dst (result_segments st5),
                    result_loop_count := result_loop_count st5 + card (tri_loop0s (segs st5 dst))\<rparr>,
                True)
         else
           and_then (update_perimeter p dst st5) (\<lambda>st6.
           and_then (collect_mergable segment_pair_shift st6
                       (set_iter p (segment_contact_ids (segs st6 dst))) []) (\<lambda>groups.
           and_then (merge_groups p groups st6) (\<lambda>st7. Inr (st7, False)))))))"

section \<open>The scan and the outer loop (lines 281-362)\<close>

text \<open>
  Both loops of the source are total in the model. Their termination rests on two facts:
  nothing in a merge lengthens the list that is scanned, and every accepted merge pops
  at least one key off the dictionary of contacts.
\<close>

definition frame :: "engine \<Rightarrow> engine \<Rightarrow> bool" where
  "frame st st' \<longleftrightarrow>
     set (sci2segment_contacts st') \<subseteq> set (sci2segment_contacts st)
     \<and> length (sci2segment_contacts st') \<le> length (sci2segment_contacts st)
     \<and> length (cost_sorted_segment_contacts st') \<le> length (cost_sorted_segment_contacts st)
     \<and> merging st' = merging st \<and> accepted st' = accepted st \<and> passes st' = passes st"

lemma frame_refl [simp]: "frame st st"
  by (simp add: frame_def)

lemma frame_trans: "frame a b \<Longrightarrow> frame b c \<Longrightarrow> frame a c"
  by (auto simp: frame_def)

lemma frame_upd [simp]:
  "frame (st\<lparr>scs := f\<rparr>) st' = frame st st'"
  "frame (st\<lparr>segs := g\<rparr>) st' = frame st st'"
  "frame st (st'\<lparr>scs := f\<rparr>) = frame st st'"
  "frame st (st'\<lparr>segs := g\<rparr>) = frame st st'"
  "frame st (st'\<lparr>i_var := iv\<rparr>) = frame st st'"
  by (simp_all add: frame_def)

lemma and_then_Inr_iff: "and_then r f = Inr y \<longleftrightarrow> (\<exists>x. r = Inr x \<and> f x = Inr y)"
  by (cases r) (simp_all add: and_then_def)

lemma length_delete_at: "length (delete_at i xs) \<le> length xs"
  by (simp add: delete_at_def)

lemma length_delete_insert: "i < length xs \<Longrightarrow> length (insert_at j x (delete_at i xs)) = length xs"
  by (auto simp: delete_at_def insert_at_def)

lemma remove_segment_contact_frame:
  assumes "remove_segment_contact sci st = Inr st'"
  shows "frame st st'"
    and "length (sci2segment_contacts st') < length (sci2segment_contacts st)"
proof -
  from assms have m: "sci \<in> set (sci2segment_contacts st)"
    and l: "sci2segment_contacts st' = removeAll sci (sci2segment_contacts st)"
    by (auto simp: remove_segment_contact_def Let_def split: if_splits option.splits)
  from m l show "length (sci2segment_contacts st') < length (sci2segment_contacts st)"
    by (simp add: length_removeAll_less)
  with assms show "frame st st'"
    by (auto simp: frame_def remove_segment_contact_def Let_def length_delete_at
          split: if_splits option.splits)
qed

lemma repoint_frame: "repoint src dst ids st = Inr st' \<Longrightarrow> frame st st'"
proof (induction src dst ids st rule: repoint.induct)
  case (1 src dst st)
  then show ?case by simp
next
  case (2 src dst src_sci rest st)
  obtain sc replaced where sr: "segment_replace (scs st src_sci) src dst = (sc, replaced)"
    by (cases "segment_replace (scs st src_sci) src dst")
  from "2.prems" have live: "src_sci \<in> set (sci2segment_contacts st)"
    by (auto split: if_splits)
  show ?case
  proof (cases replaced)
    case False
    with "2.prems" live sr
    have "repoint src dst rest (st\<lparr>scs := (scs st)(src_sci := sc)\<rparr>) = Inr st'" by simp
    from "2.IH"(3)[OF _ sr[symmetric] _ this] live False show ?thesis by simp
  next
    case True
    show ?thesis
    proof (cases "segment0 sc = segment1 sc")
      case False
      with "2.prems" live sr True
      have "repoint src dst rest (st\<lparr>scs := (scs st)(src_sci := sc),
              segs := add_contact_id dst src_sci (segs st)\<rparr>) = Inr st'" by simp
      from "2.IH"(2)[OF _ sr[symmetric] _ _ this] live True False show ?thesis by simp
    next
      case eq: True
      with "2.prems" live sr True obtain st2 where
        r: "remove_segment_contact src_sci (st\<lparr>scs := (scs st)(src_sci := sc)\<rparr>) = Inr st2"
        and rest: "repoint src dst rest st2 = Inr st'" and ne: "src \<noteq> dst"
        by (auto simp: and_then_Inr_iff split: if_splits)
      from "2.IH"(1)[OF _ sr[symmetric] _ _ ne rest] live True eq
      have "frame st2 st'" by simp
      with remove_segment_contact_frame(1)[OF r] show ?thesis
        by (auto intro: frame_trans)
    qed
  qed
qed

lemma fold_into_frame: "fold_into m ids st = Inr st' \<Longrightarrow> frame st st'"
proof (induction m ids st rule: fold_into.induct)
  case (1 m st)
  then show ?case by simp
next
  case (2 m sc rest st)
  then obtain st1 where
    r: "remove_segment_contact sc
          (st\<lparr>scs := (scs st)(m := (scs st m)
                \<lparr>cost := cost (scs st m) + cost (scs st sc),
                 sc_length := sc_length (scs st m) + sc_length (scs st sc)\<rparr>)\<rparr>) = Inr st1"
    and rest: "fold_into m rest st1 = Inr st'"
    by (auto simp: and_then_Inr_iff)
  from "2.IH"[OF rest] remove_segment_contact_frame(1)[OF r]
  show ?case by (auto intro: frame_trans)
qed

lemma reposition_frame: "reposition st = Inr st' \<Longrightarrow> frame st st'"
  by (auto simp: frame_def reposition_def Let_def length_delete_insert split: option.splits if_splits)

lemma locate_frame [simp]: "frame (locate m st) st' = frame st st'"
  by (simp add: locate_def Let_def frame_def)

lemma merge_group_frame: "merge_group p g st = Inr st' \<Longrightarrow> frame st st'"
  by (auto simp: merge_group_def and_then_Inr_iff split: if_splits list.splits
        dest!: fold_into_frame reposition_frame intro: frame_trans)

lemma merge_groups_frame: "merge_groups p gs st = Inr st' \<Longrightarrow> frame st st'"
proof (induction p gs st rule: merge_groups.induct)
  case (1 p st)
  then show ?case by simp
next
  case (2 p spi g gs st)
  then obtain st1 where g: "merge_group p g st = Inr st1" and r: "merge_groups p gs st1 = Inr st'"
    by (auto simp: and_then_Inr_iff)
  from "2.IH"[OF r] merge_group_frame[OF g] show ?case by (auto intro: frame_trans)
qed

lemma update_perimeter_frame: "update_perimeter p dst st = Inr st' \<Longrightarrow> frame st st'"
  by (auto simp: update_perimeter_def Let_def split: if_splits)

lemma merge_segments_live:
  assumes "merge_segments p shift sci st = Inr (st', isolated)"
  shows "length (sci2segment_contacts st') < length (sci2segment_contacts st)"
    and "length (cost_sorted_segment_contacts st') \<le> length (cost_sorted_segment_contacts st)"
    and "merging st'" and "passes st' = passes st"
    and "accepted st' = accepted st @ [(cost_normalized (scs st sci),
           area (segs st (segment0 (scs st sci))), area (segs st (segment1 (scs st sci))))]"
proof -
  define dst where "dst = segment0 (scs st sci)"
  define src where "src = segment1 (scs st sci)"
  define st3 where "st3 = st\<lparr>merging := True,
       last_merged_cost := cost_normalized (scs st sci),
       accepted := accepted st @ [(cost_normalized (scs st sci), area (segs st dst), area (segs st src))],
       segs := (segs st)(dst := (segs st dst)
         \<lparr>tri_loop0s := tri_loop0s (segs st dst) \<union> tri_loop0s (segs st src),
          area := area (segs st dst) + area (segs st src)\<rparr>)\<rparr>"
  from assms obtain st4 st5 where
    r: "remove_segment_contact sci st3 = Inr st4"
    and rp: "repoint src dst (set_iter p (segment_contact_ids (segs st4 src))) st4 = Inr st5"
    and tl: "(segment_contact_ids (segs st5 dst) = [] \<and>
              st' = st5\<lparr>result_segments := set_add dst (result_segments st5),
                    result_loop_count := result_loop_count st5 + card (tri_loop0s (segs st5 dst))\<rparr>)
          \<or> (\<exists>st6 groups. update_perimeter p dst st5 = Inr st6 \<and> merge_groups p groups st6 = Inr st')"
    unfolding merge_segments_def Let_def st3_def dst_def src_def
    by (auto simp: and_then_Inr_iff split: if_splits)
  have f35: "frame st3 st5"
    using remove_segment_contact_frame(1)[OF r] repoint_frame[OF rp] by (rule frame_trans)
  from tl have f5: "frame st5 st'"
  proof
    assume "segment_contact_ids (segs st5 dst) = [] \<and>
              st' = st5\<lparr>result_segments := set_add dst (result_segments st5),
                    result_loop_count := result_loop_count st5 + card (tri_loop0s (segs st5 dst))\<rparr>"
    then show ?thesis by (simp add: frame_def)
  next
    assume "\<exists>st6 groups. update_perimeter p dst st5 = Inr st6 \<and> merge_groups p groups st6 = Inr st'"
    then obtain st6 groups where "update_perimeter p dst st5 = Inr st6"
      and "merge_groups p groups st6 = Inr st'" by blast
    then show ?thesis
      using update_perimeter_frame merge_groups_frame frame_trans by blast
  qed
  have f: "frame st3 st'" using f35 f5 by (rule frame_trans)
  have "length (sci2segment_contacts st4) < length (sci2segment_contacts st3)"
    using remove_segment_contact_frame(2)[OF r] .
  moreover have "frame st4 st'" using repoint_frame[OF rp] f5 by (rule frame_trans)
  ultimately show "length (sci2segment_contacts st') < length (sci2segment_contacts st)"
    by (simp add: frame_def st3_def)
  from f show "length (cost_sorted_segment_contacts st') \<le> length (cost_sorted_segment_contacts st)"
    "merging st'" "passes st' = passes st"
    "accepted st' = accepted st @ [(cost_normalized (scs st sci),
           area (segs st (segment0 (scs st sci))), area (segs st (segment1 (scs st sci))))]"
    by (simp_all add: frame_def st3_def dst_def src_def)
qed


definition rejected :: "params \<Rightarrow> engine \<Rightarrow> nat \<Rightarrow> bool" where
  "rejected p st sci \<longleftrightarrow>
     area (segs st (segment1 (scs st sci))) > minimum_area_threshold p
     \<and> area (segs st (segment0 (scs st sci))) + area (segs st (segment1 (scs st sci)))
         > maximum_area_threshold p"

function for_loop :: "params \<Rightarrow> nat \<Rightarrow> nat \<Rightarrow> engine \<Rightarrow> py_error + engine" where
  "for_loop p segment_pair_shift k st =
     (if k \<ge> length (cost_sorted_segment_contacts st) then Inr st
      else if cost_normalized (scs st (cost_sorted_segment_contacts st ! k)) > cost_threshold p
      then Inr st
      else if rejected p st (cost_sorted_segment_contacts st ! k)
      then for_loop p segment_pair_shift (Suc k) st
      else
        (case merge_segments p segment_pair_shift (cost_sorted_segment_contacts st ! k) st of
           Inl e \<Rightarrow> Inl e
         | Inr (st', isolated) \<Rightarrow>
             if isolated then for_loop p segment_pair_shift (Suc k) st' else Inr st'))"
  by pat_completeness auto
termination
proof (relation "measure (\<lambda>(p, s, k, st). length (cost_sorted_segment_contacts st) - k)")
  show "wf (measure (\<lambda>(p, s, k, st). length (cost_sorted_segment_contacts st) - k))" by simp
next
  fix p :: params and segment_pair_shift k :: nat and st :: engine
  assume "\<not> length (cost_sorted_segment_contacts st) \<le> k"
  then show "((p, segment_pair_shift, Suc k, st), (p, segment_pair_shift, k, st))
      \<in> measure (\<lambda>(p, s, k, st). length (cost_sorted_segment_contacts st) - k)"
    by simp
next
  fix p :: params and segment_pair_shift k :: nat and st :: engine and x2 x y
  assume "\<not> length (cost_sorted_segment_contacts st) \<le> k"
    and "merge_segments p segment_pair_shift (cost_sorted_segment_contacts st ! k) st = Inr x2"
    and "(x, y) = x2"
  then show "((p, segment_pair_shift, Suc k, x), (p, segment_pair_shift, k, st))
      \<in> measure (\<lambda>(p, s, k, st). length (cost_sorted_segment_contacts st) - k)"
    using merge_segments_live(2)[of p segment_pair_shift "cost_sorted_segment_contacts st ! k" st x y]
    by simp
qed

declare for_loop.simps [simp del]

lemma for_loop_live:
  "for_loop p s k st = Inr st' \<Longrightarrow>
     length (sci2segment_contacts st') \<le> length (sci2segment_contacts st)
     \<and> passes st' = passes st
     \<and> (merging st' \<and> \<not> merging st \<longrightarrow>
          length (sci2segment_contacts st') < length (sci2segment_contacts st))"
proof (induction p s k st rule: for_loop.induct)
  case (1 p s k st)
  show ?case
  proof (cases "k \<ge> length (cost_sorted_segment_contacts st)
       \<or> cost_normalized (scs st (cost_sorted_segment_contacts st ! k)) > cost_threshold p")
    case True
    with "1.prems" have "st' = st" by (subst (asm) for_loop.simps) (auto split: if_splits)
    then show ?thesis by simp
  next
    case running: False
    show ?thesis
    proof (cases "rejected p st (cost_sorted_segment_contacts st ! k)")
      case True
      with running "1.prems" have "for_loop p s (Suc k) st = Inr st'"
        by (subst (asm) for_loop.simps) simp
      from "1.IH"(1)[OF _ _ True this] running show ?thesis by simp
    next
      case False
      with running "1.prems" obtain st1 isolated where
        m: "merge_segments p s (cost_sorted_segment_contacts st ! k) st = Inr (st1, isolated)"
        and r: "if isolated then for_loop p s (Suc k) st1 = Inr st' else st' = st1"
        by (subst (asm) for_loop.simps) (auto split: sum.splits if_splits)
      note l = merge_segments_live[OF m]
      show ?thesis
      proof (cases isolated)
        case True
        with r have "for_loop p s (Suc k) st1 = Inr st'" by simp
        from "1.IH"(2)[OF _ _ False m refl True this] running l show ?thesis by simp
      next
        case False
        with r l show ?thesis by simp
      qed
    qed
  qed
qed

function while_merging :: "params \<Rightarrow> nat \<Rightarrow> engine \<Rightarrow> py_error + engine" where
  "while_merging p segment_pair_shift st =
     (case for_loop p segment_pair_shift 0 (st\<lparr>merging := False, passes := Suc (passes st)\<rparr>) of
        Inl e \<Rightarrow> Inl e
      | Inr st' \<Rightarrow> if merging st' then while_merging p segment_pair_shift st' else Inr st')"
  by pat_completeness auto
termination
proof (relation "measure (\<lambda>(p, s, st). length (sci2segment_contacts st))")
  show "wf (measure (\<lambda>(p, s, st). length (sci2segment_contacts st)))" by simp
next
  fix p :: params and segment_pair_shift :: nat and st x2 :: engine
  assume "for_loop p segment_pair_shift 0 (st\<lparr>merging := False, passes := Suc (passes st)\<rparr>) = Inr x2"
    and "merging x2"
  then show "((p, segment_pair_shift, x2), (p, segment_pair_shift, st))
      \<in> measure (\<lambda>(p, s, st). length (sci2segment_contacts st))"
    using for_loop_live[of p segment_pair_shift 0 "st\<lparr>merging := False, passes := Suc (passes st)\<rparr>" x2]
    by simp
qed

declare while_merging.simps [simp del]

section \<open>The mesh\<close>

text \<open>
  What the source reads of a \<open>BMesh\<close>. A loop is identified with its index. The geometry
  the source obtains from the host (\<open>area_tri\<close>, vector lengths, the angle between two
  loop normals, \<open>calc_length\<close>) is part of the mesh. \<open>link_loops_radial l\<close> lists the loops
  that following \<open>link_loop_radial_next\<close> from \<open>l\<close> meets before it is back at \<open>l\<close>.
\<close>

record mesh =
  verts :: "nat list"
  deform :: "nat \<Rightarrow> (nat \<times> real) list"
  calc_loop_triangles :: "(nat \<times> nat \<times> nat) list"
  loop_vert :: "nat \<Rightarrow> nat"
  loop_face :: "nat \<Rightarrow> nat"
  loop_edge :: "nat \<Rightarrow> nat"
  link_loop_next :: "nat \<Rightarrow> nat"
  link_loop_prev :: "nat \<Rightarrow> nat"
  link_loops_radial :: "nat \<Rightarrow> nat list"
  face_select :: "nat \<Rightarrow> bool"
  face_material_index :: "nat \<Rightarrow> nat"
  edge_verts :: "nat \<Rightarrow> nat \<times> nat"
  edge_smooth :: "nat \<Rightarrow> bool"
  edge_seam :: "nat \<Rightarrow> bool"
  edge_calc_length :: "nat \<Rightarrow> real"
  area_tri :: "nat \<Rightarrow> nat \<Rightarrow> nat \<Rightarrow> real"
  distance :: "nat \<Rightarrow> nat \<Rightarrow> real"
  normal_angle :: "nat \<Rightarrow> nat \<Rightarrow> real"

definition to_tri_loop_index :: "mesh \<Rightarrow> nat \<Rightarrow> nat" where
  "to_tri_loop_index m loop =
     (let li0 = loop; li1 = link_loop_next m loop; li2 = link_loop_prev m loop
      in if li0 > li1 then (if li1 > li2 then li2 else li1)
         else if li0 > li2 then li2 else li0)"

section \<open>Vertex group weights\<close>

definition dict_get :: "(nat \<times> real) list \<Rightarrow> nat \<Rightarrow> real \<Rightarrow> real" where
  "dict_get d k dflt = (case map_of d k of None \<Rightarrow> dflt | Some v \<Rightarrow> v)"

definition calc_vi2vgi2weights :: "mesh \<Rightarrow> nat set \<Rightarrow> (nat \<rightharpoonup> (nat \<times> real) list)" where
  "calc_vi2vgi2weights target_bmesh ignore =
     map_of (rev (map (\<lambda>v. (v, filter (\<lambda>(vgi, weight). vgi \<notin> ignore) (deform target_bmesh v)))
                   (verts target_bmesh)))"

text \<open>Lines 459-464, without the cache.\<close>

definition group_weight_difference :: "(nat \<times> real) list \<Rightarrow> (nat \<times> real) list \<Rightarrow> real" where
  "group_weight_difference vgi2weights0 vgi2weights1 =
     (\<Sum>(vgi0, weight0) \<leftarrow> vgi2weights0. \<bar>weight0 - dict_get vgi2weights1 vgi0 0\<bar>)
     + (\<Sum>(vgi1, weight1) \<leftarrow> vgi2weights1. \<bar>weight1 - dict_get vgi2weights0 vgi1 0\<bar>)"

text \<open>Lines 451-466; the cache \<open>vpi2weights\<close> is passed in and returned.\<close>

definition calc_vertex_group_weight_cost ::
  "(nat \<rightharpoonup> (nat \<times> real) list) \<Rightarrow> nat \<Rightarrow> nat \<Rightarrow> nat \<Rightarrow> (nat \<rightharpoonup> real)
     \<Rightarrow> py_error + real \<times> (nat \<rightharpoonup> real)" where
  "calc_vertex_group_weight_cost vi2vgi2weights vertex_pair_shift vert0 vert1 vpi2weights =
     (case vpi2weights (to_vertex_pair_id vert0 vert1 vertex_pair_shift) of
        Some w \<Rightarrow> Inr (w, vpi2weights)
      | None \<Rightarrow>
          (case vi2vgi2weights vert0 of
             None \<Rightarrow> Inl KeyError
           | Some vgi2weights0 \<Rightarrow>
               (case vi2vgi2weights vert1 of
                  None \<Rightarrow> Inl KeyError
                | Some vgi2weights1 \<Rightarrow>
                    Inr (group_weight_difference vgi2weights0 vgi2weights1,
                         vpi2weights(to_vertex_pair_id vert0 vert1 vertex_pair_shift
                           \<mapsto> group_weight_difference vgi2weights0 vgi2weights1)))))"

text \<open>Lines 474-486: the running maximum over the chained items of the three vertices.\<close>

fun heaviest_scan :: "(nat \<times> real) list \<Rightarrow> (nat \<rightharpoonup> real) \<Rightarrow> int \<Rightarrow> real \<Rightarrow> int" where
  "heaviest_scan [] vgi2weights max_vgi max_weight = max_vgi"
| "heaviest_scan ((vgi, w) # rest) vgi2weights max_vgi max_weight =
     (if w + (case vgi2weights vgi of None \<Rightarrow> 0 | Some x \<Rightarrow> x) > max_weight
      then heaviest_scan rest
             (vgi2weights(vgi \<mapsto> w + (case vgi2weights vgi of None \<Rightarrow> 0 | Some x \<Rightarrow> x)))
             (int vgi) (w + (case vgi2weights vgi of None \<Rightarrow> 0 | Some x \<Rightarrow> x))
      else heaviest_scan rest
             (vgi2weights(vgi \<mapsto> w + (case vgi2weights vgi of None \<Rightarrow> 0 | Some x \<Rightarrow> x)))
             max_vgi max_weight)"

definition calc_heaviest_vertex_group_index ::
  "mesh \<Rightarrow> (nat \<rightharpoonup> (nat \<times> real) list) \<Rightarrow> nat \<Rightarrow> nat \<Rightarrow> (nat \<rightharpoonup> int)
     \<Rightarrow> py_error + int \<times> (nat \<rightharpoonup> int)" where
  "calc_heaviest_vertex_group_index m vi2vgi2weights tli loop tli2heaviest_vgi =
     (case tli2heaviest_vgi tli of
        Some vgi \<Rightarrow> Inr (vgi, tli2heaviest_vgi)
      | None \<Rightarrow>
          (case vi2vgi2weights (loop_vert m loop) of
             None \<Rightarrow> Inl KeyError
           | Some items0 \<Rightarrow>
               (case vi2vgi2weights (loop_vert m (link_loop_next m loop)) of
                  None \<Rightarrow> Inl KeyError
                | Some items1 \<Rightarrow>
                    (case vi2vgi2weights (loop_vert m (link_loop_prev m loop)) of
                       None \<Rightarrow> Inl KeyError
                     | Some items2 \<Rightarrow>
                         Inr (heaviest_scan (items0 @ items1 @ items2) Map.empty (- 1) (- 1),
                              tli2heaviest_vgi(tli \<mapsto>
                                heaviest_scan (items0 @ items1 @ items2) Map.empty (- 1) (- 1)))))))"

section \<open>The adjacency graph builder (lines 433-623)\<close>

record builder = graph +
  tli2segment :: "(nat \<times> nat) list"
  next_segment_id :: nat
  next_segment_contact_id :: nat
  processed_loop_pair_ids :: "nat set"
  vpi2weights :: "nat \<rightharpoonup> real"
  tli2heaviest_vgi :: "nat \<rightharpoonup> int"

definition new_segment :: segment where
  "new_segment = \<lparr>area = 0, perimeter = 0, non_contact_perimeter = 0,
                   tri_loop0s = {}, segment_contact_ids = []\<rparr>"

text \<open>\<open>tli2segment[tli]\<close> on the \<open>defaultdict\<close>: a missing key allocates the next segment.\<close>

definition get_segment :: "nat \<Rightarrow> builder \<Rightarrow> nat \<times> builder" where
  "get_segment tli b =
     (case map_of (tli2segment b) tli of
        Some s \<Rightarrow> (s, b)
      | None \<Rightarrow>
          (Suc (next_segment_id b),
           b\<lparr>next_segment_id := Suc (next_segment_id b),
             segs := (segs b)(Suc (next_segment_id b) := new_segment),
             tli2segment := tli2segment b @ [(tli, Suc (next_segment_id b))]\<rparr>))"

text \<open>The locals that lines 546-564 set once per loop of the triangle.\<close>

record edge_locals =
  edge_length :: real
  vert0 :: nat
  vert1 :: nat
  this_loop_vertex_group_weight_cost :: real
  cost_edge_sharp :: real
  cost_edge_seam :: real

definition enter_edge ::
  "mesh \<Rightarrow> (nat \<rightharpoonup> (nat \<times> real) list) \<Rightarrow> nat \<Rightarrow> nat \<Rightarrow> edge_locals \<Rightarrow> builder
     \<Rightarrow> py_error + edge_locals \<times> builder" where
  "enter_edge m vi2vgi2weights vertex_pair_shift this_loop loc b =
     (if edge_length loc < 0 then
        and_then (calc_vertex_group_weight_cost vi2vgi2weights vertex_pair_shift
                    (fst (edge_verts m (loop_edge m this_loop)))
                    (loop_vert m (link_loop_prev m this_loop)) (vpi2weights b)) (\<lambda>(w0, memo0).
        and_then (calc_vertex_group_weight_cost vi2vgi2weights vertex_pair_shift
                    (snd (edge_verts m (loop_edge m this_loop)))
                    (loop_vert m (link_loop_prev m this_loop)) memo0) (\<lambda>(w1, memo1).
        Inr (\<lparr>edge_length = edge_calc_length m (loop_edge m this_loop),
               vert0 = fst (edge_verts m (loop_edge m this_loop)),
               vert1 = snd (edge_verts m (loop_edge m this_loop)),
               this_loop_vertex_group_weight_cost = w0 + w1,
               cost_edge_sharp = edge_calc_length m (loop_edge m this_loop)
                  * (if edge_smooth m (loop_edge m this_loop) then 0 else 1),
               cost_edge_seam = edge_calc_length m (loop_edge m this_loop)
                  * (if edge_seam m (loop_edge m this_loop) then 1 else 0)\<rparr>,
             b\<lparr>vpi2weights := memo1\<rparr>)))
      else Inr (loc, b))"

text \<open>Lines 571-580.\<close>

definition cost_vertex_group_weight ::
  "(nat \<rightharpoonup> (nat \<times> real) list) \<Rightarrow> nat \<Rightarrow> edge_locals \<Rightarrow> nat \<Rightarrow> (nat \<rightharpoonup> real)
     \<Rightarrow> py_error + real \<times> (nat \<rightharpoonup> real)" where
  "cost_vertex_group_weight vi2vgi2weights vertex_pair_shift loc that_vert2 memo =
     and_then (calc_vertex_group_weight_cost vi2vgi2weights vertex_pair_shift (vert0 loc) that_vert2 memo)
       (\<lambda>(w0, memo0).
     and_then (calc_vertex_group_weight_cost vi2vgi2weights vertex_pair_shift (vert1 loc) that_vert2 memo0)
       (\<lambda>(w1, memo1).
     Inr (edge_length loc * 0.25 * (this_loop_vertex_group_weight_cost loc + w0 + w1), memo1)))"

text \<open>Lines 593-602.\<close>

definition cost_total :: "params \<Rightarrow> real \<Rightarrow> real \<Rightarrow> real \<Rightarrow> real \<Rightarrow> real \<Rightarrow> real \<Rightarrow> real" where
  "cost_total p c_vertex_group_weight c_vertex_group_change c_face_angle c_material_change
       c_edge_sharp c_edge_seam =
     vertex_group_weight_cost_factor p * c_vertex_group_weight
     + vertex_group_change_cost_factor p * c_vertex_group_change
     + face_angle_cost_factor p * c_face_angle
     + material_change_cost_factor p * c_material_change
     + edge_sharp_cost_factor p * c_edge_sharp
     + edge_seam_cost_factor p * c_edge_seam"

definition half_pi_inverse :: real where
  "half_pi_inverse = 2 / pi"

text \<open>
  Lines 537-615, the body of the walk around the edge for one \<open>that_loop\<close>. The state is
  the builder, the locals of the edge and \<open>this_segment_contact_perimeter\<close>.
\<close>

definition radial_step ::
  "params \<Rightarrow> mesh \<Rightarrow> (nat \<rightharpoonup> (nat \<times> real) list) \<Rightarrow> nat \<Rightarrow> nat \<Rightarrow> nat \<Rightarrow> nat \<Rightarrow> int
     \<Rightarrow> nat \<Rightarrow> nat
     \<Rightarrow> edge_locals \<times> builder \<times> real \<Rightarrow> py_error + edge_locals \<times> builder \<times> real" where
  "radial_step p m vi2vgi2weights vertex_pair_shift loop_pair_shift this_segment this_face
       this_heaviest_vertex_group_index this_loop that_loop state =
     (case state of (loc, b, this_segment_contact_perimeter) \<Rightarrow>
        if to_loop_pair_id this_loop that_loop loop_pair_shift \<in> processed_loop_pair_ids b
        then Inr state
        else if \<not> face_select m (loop_face m that_loop)
        then Inr (loc,
                  b\<lparr>processed_loop_pair_ids :=
                      insert (to_loop_pair_id this_loop that_loop loop_pair_shift)
                        (processed_loop_pair_ids b)\<rparr>,
                  this_segment_contact_perimeter)
        else
          and_then (enter_edge m vi2vgi2weights vertex_pair_shift this_loop loc
                      (b\<lparr>processed_loop_pair_ids :=
                          insert (to_loop_pair_id this_loop that_loop loop_pair_shift)
                            (processed_loop_pair_ids b)\<rparr>)) (\<lambda>(loc1, b1).
          and_then (calc_heaviest_vertex_group_index m vi2vgi2weights
                      (to_tri_loop_index m that_loop) that_loop (tli2heaviest_vgi b1))
            (\<lambda>(that_heaviest_vertex_group_index, heaviest1).
          (case get_segment (to_tri_loop_index m that_loop) (b1\<lparr>tli2heaviest_vgi := heaviest1\<rparr>) of
             (that_segment, b2) \<Rightarrow>
          and_then (cost_vertex_group_weight vi2vgi2weights vertex_pair_shift loc1
                      (loop_vert m (link_loop_prev m that_loop)) (vpi2weights b2))
            (\<lambda>(c_vertex_group_weight, memo).
          and_then (py_div
                      (cost_total p c_vertex_group_weight
                         (edge_length loc1 * (if this_heaviest_vertex_group_index
                                                   = that_heaviest_vertex_group_index then 0 else 1))
                         (edge_length loc1 * half_pi_inverse * normal_angle m this_loop that_loop)
                         (edge_length loc1 * (if face_material_index m this_face
                                                   = face_material_index m (loop_face m that_loop)
                                              then 0 else 1))
                         (cost_edge_sharp loc1) (cost_edge_seam loc1))
                      (if contact_length_factor p > 0
                       then edge_length loc1 * contact_length_factor p else 1))
            (\<lambda>normalized.
          Inr (loc1,
               b2\<lparr>vpi2weights := memo,
                  next_segment_contact_id := Suc (next_segment_contact_id b2),
                  scs := (scs b2)(Suc (next_segment_contact_id b2) :=
                    \<lparr>cost = cost_total p c_vertex_group_weight
                         (edge_length loc1 * (if this_heaviest_vertex_group_index
                                                   = that_heaviest_vertex_group_index then 0 else 1))
                         (edge_length loc1 * half_pi_inverse * normal_angle m this_loop that_loop)
                         (edge_length loc1 * (if face_material_index m this_face
                                                   = face_material_index m (loop_face m that_loop)
                                              then 0 else 1))
                         (cost_edge_sharp loc1) (cost_edge_seam loc1),
                     cost_normalized = normalized,
                     sc_length = edge_length loc1,
                     segment0 = this_segment,
                     segment1 = that_segment\<rparr>),
                  sci2segment_contacts :=
                    set_add (Suc (next_segment_contact_id b2)) (sci2segment_contacts b2),
                  segs := add_contact_id that_segment (Suc (next_segment_contact_id b2))
                           (add_contact_id this_segment (Suc (next_segment_contact_id b2)) (segs b2))\<rparr>,
               this_segment_contact_perimeter + edge_length loc1)))))))"

fun radial_walk ::
  "params \<Rightarrow> mesh \<Rightarrow> (nat \<rightharpoonup> (nat \<times> real) list) \<Rightarrow> nat \<Rightarrow> nat \<Rightarrow> nat \<Rightarrow> nat \<Rightarrow> int
     \<Rightarrow> nat \<Rightarrow> nat list
     \<Rightarrow> edge_locals \<times> builder \<times> real \<Rightarrow> py_error + edge_locals \<times> builder \<times> real" where
  "radial_walk p m vi2 vshift lshift this_segment this_face this_heaviest this_loop [] state = Inr state"
| "radial_walk p m vi2 vshift lshift this_segment this_face this_heaviest this_loop (that_loop # rest) state =
     and_then (radial_step p m vi2 vshift lshift this_segment this_face this_heaviest this_loop that_loop state)
       (radial_walk p m vi2 vshift lshift this_segment this_face this_heaviest this_loop rest)"

text \<open>Lines 533-615 for one loop of the triangle: \<open>edge_length\<close> starts at \<open>-1\<close>.\<close>

definition loop_step ::
  "params \<Rightarrow> mesh \<Rightarrow> (nat \<rightharpoonup> (nat \<times> real) list) \<Rightarrow> nat \<Rightarrow> nat \<Rightarrow> nat \<Rightarrow> nat \<Rightarrow> int
     \<Rightarrow> nat
     \<Rightarrow> edge_locals \<times> builder \<times> real \<Rightarrow> py_error + edge_locals \<times> builder \<times> real" where
  "loop_step p m vi2 vshift lshift this_segment this_face this_heaviest this_loop state =
     (case state of (loc, b, this_segment_contact_perimeter) \<Rightarrow>
        radial_walk p m vi2 vshift lshift this_segment this_face this_heaviest this_loop
          (link_loops_radial m this_loop)
          (loc\<lparr>edge_length := - 1\<rparr>, b, this_segment_contact_perimeter))"

text \<open>Lines 513-617 for one triangle.\<close>

definition tri_step ::
  "params \<Rightarrow> mesh \<Rightarrow> (nat \<rightharpoonup> (nat \<times> real) list) \<Rightarrow> nat \<Rightarrow> nat \<Rightarrow> nat \<times> nat \<times> nat
     \<Rightarrow> edge_locals \<times> builder \<Rightarrow> py_error + edge_locals \<times> builder" where
  "tri_step p m vi2 vshift lshift tri_loop state =
     (case tri_loop of (tri_loop0, tri_loop1, tri_loop2) \<Rightarrow>
      case state of (loc, b) \<Rightarrow>
        if \<not> face_select m (loop_face m tri_loop0) then Inr state
        else
          and_then (calc_heaviest_vertex_group_index m vi2 (to_tri_loop_index m tri_loop0)
                      tri_loop0 (tli2heaviest_vgi b)) (\<lambda>(this_heaviest, heaviest1).
          (case get_segment (to_tri_loop_index m tri_loop0) (b\<lparr>tli2heaviest_vgi := heaviest1\<rparr>) of
             (this_segment, b1) \<Rightarrow>
          and_then (loop_step p m vi2 vshift lshift this_segment (loop_face m tri_loop0) this_heaviest tri_loop0
             (loc,
              b1\<lparr>segs := (segs b1)(this_segment := (segs b1 this_segment)
                   \<lparr>area := area_tri m (loop_vert m tri_loop0) (loop_vert m tri_loop1)
                              (loop_vert m tri_loop2),
                    perimeter := distance m (loop_vert m tri_loop0) (loop_vert m tri_loop1)
                       + distance m (loop_vert m tri_loop1) (loop_vert m tri_loop2)
                       + distance m (loop_vert m tri_loop2) (loop_vert m tri_loop0),
                    tri_loop0s := insert tri_loop0 (tri_loop0s (segs b1 this_segment))\<rparr>)\<rparr>,
              0)) (\<lambda>state0.
          and_then (loop_step p m vi2 vshift lshift this_segment (loop_face m tri_loop0) this_heaviest tri_loop1 state0)
            (\<lambda>state1.
          and_then (loop_step p m vi2 vshift lshift this_segment (loop_face m tri_loop0) this_heaviest tri_loop2 state1)
            (\<lambda>(loc2, b2, this_segment_contact_perimeter).
          Inr (loc2,
               b2\<lparr>segs := (segs b2)(this_segment := (segs b2 this_segment)
                    \<lparr>non_contact_perimeter :=
                        perimeter (segs b2 this_segment) - this_segment_contact_perimeter\<rparr>)\<rparr>)))))))"

fun tri_walk ::
  "params \<Rightarrow> mesh \<Rightarrow> (nat \<rightharpoonup> (nat \<times> real) list) \<Rightarrow> nat \<Rightarrow> nat \<Rightarrow> (nat \<times> nat \<times> nat) list
     \<Rightarrow> edge_locals \<times> builder \<Rightarrow> py_error + edge_locals \<times> builder" where
  "tri_walk p m vi2 vshift lshift [] state = Inr state"
| "tri_walk p m vi2 vshift lshift (tri_loop # rest) state =
     and_then (tri_step p m vi2 vshift lshift tri_loop state) (tri_walk p m vi2 vshift lshift rest)"

text \<open>Lines 619-621.\<close>

fun add_perimeter_costs :: "params \<Rightarrow> nat list \<Rightarrow> builder \<Rightarrow> py_error + builder" where
  "add_perimeter_costs p [] b = Inr b"
| "add_perimeter_costs p (sci # rest) b =
     and_then (calc_perimeter_cost (segs b) (scs b sci)) (\<lambda>c.
     add_perimeter_costs p rest
       (b\<lparr>scs := (scs b)(sci := (scs b sci)
            \<lparr>cost_normalized := cost_normalized (scs b sci) + perimeter_cost_factor p * c\<rparr>)\<rparr>))"

definition empty_builder :: builder where
  "empty_builder =
     \<lparr>segs = (\<lambda>_. new_segment),
      scs = (\<lambda>_. \<lparr>cost = 0, cost_normalized = 0, sc_length = 0, segment0 = 0, segment1 = 0\<rparr>),
      sci2segment_contacts = [],
      tli2segment = [], next_segment_id = 0, next_segment_contact_id = 0,
      processed_loop_pair_ids = {}, vpi2weights = Map.empty, tli2heaviest_vgi = Map.empty\<rparr>"

definition no_edge :: edge_locals where
  "no_edge = \<lparr>edge_length = - 1, vert0 = 0, vert1 = 0, this_loop_vertex_group_weight_cost = 0,
              cost_edge_sharp = 0, cost_edge_seam = 0\<rparr>"

definition calc_segment_contacts ::
  "params \<Rightarrow> (nat \<rightharpoonup> (nat \<times> real) list) \<Rightarrow> mesh \<Rightarrow> (nat \<times> nat \<times> nat) list
     \<Rightarrow> py_error + builder \<times> nat" where
  "calc_segment_contacts p vi2vgi2weights target_bmesh tri_loops =
     and_then (pair_shift (length (verts target_bmesh))) (\<lambda>vertex_pair_shift.
     and_then (pair_shift (3 * length tri_loops)) (\<lambda>loop_pair_shift.
     and_then (tri_walk p target_bmesh vi2vgi2weights vertex_pair_shift loop_pair_shift tri_loops
                 (no_edge, empty_builder)) (\<lambda>(loc, b).
     and_then (if perimeter_cost_factor p \<noteq> 0
               then add_perimeter_costs p (sci2segment_contacts b) b else Inr b) (\<lambda>b1.
     Inr (b1, length (tli2segment b1))))))"

section \<open>\<open>auto_segment\<close> (lines 224-366)\<close>

text \<open>
  Lines 259-279: the state in which the outer loop starts. \<open>sorted\<close> is stable, as
  \<^const>\<open>sort_key\<close> is.
\<close>

definition start_engine :: "builder \<Rightarrow> engine" where
  "start_engine b =
     \<lparr>segs = segs b, scs = scs b, sci2segment_contacts = sci2segment_contacts b,
      cost_sorted_segment_contacts =
        sort_key (\<lambda>c. cost_normalized (scs b c)) (sci2segment_contacts b),
      result_segments = [], result_loop_count = 0, last_merged_cost = 0, merging = True,
      i_var = None, accepted = [], passes = 0\<rparr>"

text \<open>
  \<open>SegmentResult\<close>, with the stores its segments and contacts point into. \<open>merge_log\<close> and
  \<open>pass_count\<close> are the ghost fields of the engine at the return.
\<close>

record segment_result =
  segments :: "nat list"
  remain_segment_contacts :: "nat list"
  result_last_merged_cost :: real
  result_tri_loops :: "(nat \<times> nat \<times> nat) list"
  segment_objects :: "nat \<Rightarrow> segment"
  contact_objects :: "nat \<Rightarrow> segment_contact"
  merge_log :: "(real \<times> real \<times> real) list"
  pass_count :: nat

text \<open>Line 364: the set comprehension, then \<open>update\<close>.\<close>

definition remaining_segments :: "engine \<Rightarrow> nat list" where
  "remaining_segments st =
     fold set_add
       (concat (map (\<lambda>sc. [segment0 (scs st sc), segment1 (scs st sc)])
                  (cost_sorted_segment_contacts st))) []"

definition auto_segment :: "params \<Rightarrow> mesh \<Rightarrow> py_error + segment_result" where
  "auto_segment p target_bmesh =
     and_then (calc_segment_contacts p
                 (calc_vi2vgi2weights target_bmesh (ignore_vertex_group_indices p))
                 target_bmesh (calc_loop_triangles target_bmesh)) (\<lambda>(b, segment_count).
     if segment_count = 0 then
       Inr \<lparr>segments = [], remain_segment_contacts = [], result_last_merged_cost = 0,
            result_tri_loops = [], segment_objects = segs b, contact_objects = scs b,
            merge_log = [], pass_count = 0\<rparr>
     else
       and_then (pair_shift segment_count) (\<lambda>segment_pair_shift.
       and_then (while_merging p segment_pair_shift (start_engine b)) (\<lambda>st.
       Inr \<lparr>segments = fold set_add (set_iter p (remaining_segments st)) (result_segments st),
            remain_segment_contacts = cost_sorted_segment_contacts st,
            result_last_merged_cost = last_merged_cost st,
            result_tri_loops = calc_loop_triangles target_bmesh,
            segment_objects = segs st, contact_objects = scs st,
            merge_log = accepted st, pass_count = passes st\<rparr>)))"

section \<open>Colours (lines 19-57 and 377-394)\<close>








section \<open>Predicates of the claims\<close>

text \<open>
  The area guard of line 296 on a log of accepted merges: each entry holds the normalized
  cost, the area of the destination and the area of the source as they were when the
  merge was accepted.
\<close>

definition guard_holds :: "params \<Rightarrow> (real \<times> real \<times> real) list \<Rightarrow> bool" where
  "guard_holds p events \<longleftrightarrow>
     (\<forall>(c, dst_area, src_area) \<in> set events.
        src_area \<le> minimum_area_threshold p
        \<or> dst_area + src_area \<le> maximum_area_threshold p)"

text \<open>
  The outer loop with a budget of passes: \<open>None\<close> when the budget is used up before the
  loop has ended.
\<close>

fun while_fuel :: "nat \<Rightarrow> params \<Rightarrow> nat \<Rightarrow> engine \<Rightarrow> (py_error + engine) option" where
  "while_fuel 0 p segment_pair_shift st = None"
| "while_fuel (Suc n) p segment_pair_shift st =
     (case for_loop p segment_pair_shift 0 (st\<lparr>merging := False, passes := Suc (passes st)\<rparr>) of
        Inl e \<Rightarrow> Some (Inl e)
      | Inr st' \<Rightarrow> if merging st' then while_fuel n p segment_pair_shift st' else Some (Inr st'))"

text \<open>
  The vertex-group weight cost in the words of the specification: the cost of a pair of
  vertices is the sum over the vertex groups of the absolute difference of the two
  weights, and the term is the edge length times the average of the contribution of the
  side of A and that of the side of B.
\<close>

definition spec_pair_weight_difference :: "(nat \<times> real) list \<Rightarrow> (nat \<times> real) list \<Rightarrow> real" where
  "spec_pair_weight_difference weights0 weights1 =
     (\<Sum>vgi \<leftarrow> remdups (map fst weights0 @ map fst weights1).
        \<bar>dict_get weights0 vgi 0 - dict_get weights1 vgi 0\<bar>)"

definition spec_vertex_group_weight_cost :: "real \<Rightarrow> real \<Rightarrow> real \<Rightarrow> real" where
  "spec_vertex_group_weight_cost L a_side b_side = L * ((a_side + b_side) / 2)"

text \<open>
  A cache \<open>vpi2weights\<close> is sound for a set of vertex pairs when the entry under the id of
  each pair, if there is one, is the cost of that pair.
\<close>

definition cache_sound ::
  "(nat \<rightharpoonup> (nat \<times> real) list) \<Rightarrow> nat \<Rightarrow> (nat \<times> nat) set \<Rightarrow> (nat \<rightharpoonup> real) \<Rightarrow> bool" where
  "cache_sound vi2vgi2weights vertex_pair_shift pairs cache \<longleftrightarrow>
     (\<forall>(u, v) \<in> pairs. \<forall>wu wv.
        vi2vgi2weights u = Some wu \<longrightarrow> vi2vgi2weights v = Some wv \<longrightarrow>
        cache (to_vertex_pair_id u v vertex_pair_shift) = None
        \<or> cache (to_vertex_pair_id u v vertex_pair_shift) = Some (group_weight_difference wu wv))"


text \<open>
  No two live contacts connect the same unordered pair of segments.
\<close>

definition no_parallel_contacts :: "'a graph_scheme \<Rightarrow> bool" where
  "no_parallel_contacts g \<longleftrightarrow>
     (\<forall>c \<in> set (sci2segment_contacts g). \<forall>c' \<in> set (sci2segment_contacts g).
        c \<noteq> c' \<longrightarrow>
        {segment0 (scs g c), segment1 (scs g c)} \<noteq> {segment0 (scs g c'), segment1 (scs g c')})"

text \<open>
  Every live contact is in the index set of each of its two endpoints.
\<close>

definition registered :: "'a graph_scheme \<Rightarrow> bool" where
  "registered g \<longleftrightarrow>
     (\<forall>c \<in> set (sci2segment_contacts g).
        c \<in> set (segment_contact_ids (segs g (segment0 (scs g c))))
        \<and> c \<in> set (segment_contact_ids (segs g (segment1 (scs g c)))))"

text \<open>
  What the steps of a merge other than the re-pointing keep: live contacts only go away,
  no contact changes an endpoint, and an index set loses dead contacts only.
\<close>

definition keeps :: "engine \<Rightarrow> engine \<Rightarrow> bool" where
  "keeps st st' \<longleftrightarrow>
     set (sci2segment_contacts st') \<subseteq> set (sci2segment_contacts st)
     \<and> (\<forall>c. segment0 (scs st' c) = segment0 (scs st c)
            \<and> segment1 (scs st' c) = segment1 (scs st c))
     \<and> (\<forall>s. set (segment_contact_ids (segs st s)) \<inter> set (sci2segment_contacts st')
            \<subseteq> set (segment_contact_ids (segs st' s)))"

text \<open>
  What the re-pointing of lines 309-315 does to the contacts of the list it walks: both
  endpoints are redirected from the source to the destination, and a re-pointed contact
  that stays live is in the destination's index set.
\<close>

definition redirect :: "nat \<Rightarrow> nat \<Rightarrow> nat \<Rightarrow> nat" where
  "redirect src dst s = (if s = src then dst else s)"

definition repointed :: "nat \<Rightarrow> nat \<Rightarrow> nat list \<Rightarrow> engine \<Rightarrow> engine \<Rightarrow> bool" where
  "repointed src dst xs st st' \<longleftrightarrow>
     set (sci2segment_contacts st') \<subseteq> set (sci2segment_contacts st)
     \<and> (\<forall>c. c \<notin> set xs \<longrightarrow> segment0 (scs st' c) = segment0 (scs st c)
                           \<and> segment1 (scs st' c) = segment1 (scs st c))
     \<and> (\<forall>c \<in> set xs. segment0 (scs st' c) = redirect src dst (segment0 (scs st c))
                     \<and> segment1 (scs st' c) = redirect src dst (segment1 (scs st c)))
     \<and> (\<forall>s. set (segment_contact_ids (segs st s)) \<inter> set (sci2segment_contacts st')
            \<subseteq> set (segment_contact_ids (segs st' s)))
     \<and> (\<forall>c \<in> set xs. c \<in> set (sci2segment_contacts st')
            \<and> (segment0 (scs st c) = src \<or> segment1 (scs st c) = src)
            \<longrightarrow> c \<in> set (segment_contact_ids (segs st' dst)))"

text \<open>A contact is in the group of a key of the dictionary of lines 329-333.\<close>

definition in_group :: "(nat \<times> nat list) list \<Rightarrow> nat \<Rightarrow> nat \<Rightarrow> bool" where
  "in_group gs k c \<longleftrightarrow> (\<exists>g. (k, g) \<in> set gs \<and> c \<in> set g)"

section \<open>Concrete inputs\<close>

text \<open>
  Parameters with every cost factor at zero; \<open>set_iter\<close> enumerates a set in ascending
  order, as the interpreter does for a small set of small integers.
\<close>

definition plain_params :: params where
  "plain_params =
     \<lparr>cost_threshold = 10, maximum_area_threshold = 100, minimum_area_threshold = 0,
      contact_length_factor = 0, face_angle_cost_factor = 0, perimeter_cost_factor = 0,
      vertex_group_weight_cost_factor = 0, vertex_group_change_cost_factor = 0,
      material_change_cost_factor = 0, edge_sharp_cost_factor = 0, edge_seam_cost_factor = 0,
      ignore_vertex_group_indices = {}, set_iter = sort\<rparr>"

text \<open>
  Three disjoint pairs of triangles. Pair \<open>j\<close> has the vertices \<open>4j .. 4j+3\<close>, the loops
  \<open>6j .. 6j+5\<close> and the edges \<open>5j .. 5j+4\<close>; its triangles \<open>(4j, 4j+1, 4j+2)\<close> and
  \<open>(4j+2, 4j+1, 4j+3)\<close> share the edge \<open>5j+1\<close>, on which the loops \<open>6j+1\<close> and \<open>6j+3\<close> lie.
  All triangles have area 1 and all edges length 1.
\<close>

definition pair_strip :: mesh where
  "pair_strip =
     \<lparr>verts = [0, 1, 2, 3, 4, 5, 6, 7, 8, 9, 10, 11],
      deform = (\<lambda>_. []),
      calc_loop_triangles =
        [(0, 1, 2), (3, 4, 5), (6, 7, 8), (9, 10, 11), (12, 13, 14), (15, 16, 17)],
      loop_vert = (\<lambda>l. [0, 1, 2, 2, 1, 3] ! (l mod 6) + 4 * (l div 6)),
      loop_face = (\<lambda>l. l div 3),
      loop_edge = (\<lambda>l. [0, 1, 2, 1, 3, 4] ! (l mod 6) + 5 * (l div 6)),
      link_loop_next = (\<lambda>l. if l mod 3 = 2 then l - 2 else l + 1),
      link_loop_prev = (\<lambda>l. if l mod 3 = 0 then l + 2 else l - 1),
      link_loops_radial =
        (\<lambda>l. if l mod 6 = 1 then [l + 2] else if l mod 6 = 3 then [l - 2] else []),
      face_select = (\<lambda>_. True),
      face_material_index = (\<lambda>_. 0),
      edge_verts =
        (\<lambda>e. (fst ([(0::nat, 1::nat), (1, 2), (2, 0), (1, 3), (3, 2)] ! (e mod 5)) + 4 * (e div 5),
              snd ([(0::nat, 1::nat), (1, 2), (2, 0), (1, 3), (3, 2)] ! (e mod 5)) + 4 * (e div 5))),
      edge_smooth = (\<lambda>_. True),
      edge_seam = (\<lambda>_. False),
      edge_calc_length = (\<lambda>_. 1),
      area_tri = (\<lambda>_ _ _. 1),
      distance = (\<lambda>_ _. 1),
      normal_angle = (\<lambda>_ _. 0)\<rparr>"

text \<open>The first pair alone: two triangles that share one edge.\<close>

definition triangle_pair :: mesh where
  "triangle_pair =
     pair_strip\<lparr>verts := [0, 1, 2, 3], calc_loop_triangles := [(0, 1, 2), (3, 4, 5)]\<rparr>"

text \<open>The selection boundary of the specification: only the first of the two is selected.\<close>

definition boundary_mesh :: mesh where
  "boundary_mesh = triangle_pair\<lparr>face_select := (\<lambda>f. f = 0)\<rparr>"

text \<open>Four vertices and no face.\<close>

definition faceless_mesh :: mesh where
  "faceless_mesh = triangle_pair\<lparr>calc_loop_triangles := []\<rparr>"

text \<open>
  The three pairs with seams: the shared edge of the second pair is a seam of length 1,
  that of the third pair a seam of length 2. With the seam factor at 1 and no length
  normalization the three contacts cost 0, 1 and 2.
\<close>

definition seam_strip :: mesh where
  "seam_strip =
     pair_strip\<lparr>edge_seam := (\<lambda>e. e = 6 \<or> e = 11),
                edge_calc_length := (\<lambda>e. if e = 11 then 2 else 1)\<rparr>"

definition seam_params :: params where
  "seam_params = plain_params\<lparr>edge_seam_cost_factor := 1\<rparr>"

definition lockout_params :: params where
  "lockout_params = plain_params\<lparr>maximum_area_threshold := 0\<rparr>"

text \<open>The engine state in which the outer loop starts on \<open>triangle_pair\<close>.\<close>

definition pair_state :: engine where
  "pair_state =
     \<lparr>segs = (\<lambda>_. new_segment)
        (1 := \<lparr>area = 1, perimeter = 3, non_contact_perimeter = 2, tri_loop0s = {0},
                segment_contact_ids = [1]\<rparr>,
         2 := \<lparr>area = 1, perimeter = 3, non_contact_perimeter = 3, tri_loop0s = {3},
                segment_contact_ids = [1]\<rparr>),
      scs = (\<lambda>_. \<lparr>cost = 0, cost_normalized = 0, sc_length = 0, segment0 = 0, segment1 = 0\<rparr>)
        (1 := \<lparr>cost = 0, cost_normalized = 0, sc_length = 1, segment0 = 1, segment1 = 2\<rparr>),
      sci2segment_contacts = [1],
      cost_sorted_segment_contacts = [1],
      result_segments = [], result_loop_count = 0, last_merged_cost = 0, merging = True,
      i_var = None, accepted = [], passes = 0\<rparr>"

text \<open>A segment of area 0 (a degenerate triangle) in contact with a segment of area 1.\<close>

definition degenerate_segs :: "nat \<Rightarrow> segment" where
  "degenerate_segs =
     (\<lambda>_. \<lparr>area = 1, perimeter = 4, non_contact_perimeter = 3, tri_loop0s = {},
            segment_contact_ids = []\<rparr>)
     (1 := \<lparr>area = 0, perimeter = 2, non_contact_perimeter = 1, tri_loop0s = {},
             segment_contact_ids = []\<rparr>)"

definition degenerate_contact :: segment_contact where
  "degenerate_contact =
     \<lparr>cost = 0, cost_normalized = 0, sc_length = 1, segment0 = 1, segment1 = 2\<rparr>"

definition unit_segs :: "nat \<Rightarrow> segment" where
  "unit_segs = (\<lambda>_. \<lparr>area = 1, perimeter = 4, non_contact_perimeter = 3, tri_loop0s = {},
                       segment_contact_ids = []\<rparr>)"

text \<open>
  The two triangles with one weighted vertex: vertex 0, the far vertex of the first
  triangle at the shared edge, has weight 1 in group 7.
\<close>

definition weighted_pair :: mesh where
  "weighted_pair = triangle_pair\<lparr>deform := (\<lambda>v. if v = 0 then [(7, 1)] else [])\<rparr>"

definition weight_params :: params where
  "weight_params = plain_params\<lparr>vertex_group_weight_cost_factor := 1\<rparr>"

text \<open>
  Three triangles around the vertex 0, each sharing an edge with the other two: A on the
  loops 0, 1, 2, C on 3, 4, 5 and B on 6, 7, 8, listed in this order. The builder makes
  the contacts 1 = (A, B), 2 = (A, C) and 3 = (C, B) between the segments A = 1, B = 2
  and C = 3. The second set of parameters enumerates sets in descending order.
\<close>

definition fan_mesh :: mesh where
  "fan_mesh =
     pair_strip\<lparr>verts := [0, 1, 2, 3],
       calc_loop_triangles := [(0, 1, 2), (3, 4, 5), (6, 7, 8)],
       loop_vert := (\<lambda>l. [0, 1, 2, 0, 2, 3, 0, 3, 1] ! l),
       loop_edge := (\<lambda>l. [0, 1, 2, 2, 3, 4, 4, 5, 0] ! l),
       link_loops_radial :=
         (\<lambda>l. if l = 0 then [8] else if l = 8 then [0] else if l = 2 then [3]
               else if l = 3 then [2] else if l = 5 then [6] else if l = 6 then [5] else []),
       edge_verts := (\<lambda>e. [(0::nat, 1::nat), (1, 2), (2, 0), (2, 3), (3, 0), (3, 1)] ! e)\<rparr>"

definition fan_params :: params where
  "fan_params = plain_params\<lparr>cost_threshold := 0, minimum_area_threshold := 1,
     maximum_area_threshold := 2\<rparr>"

definition fan_params_descending :: params where
  "fan_params_descending = fan_params\<lparr>set_iter := (\<lambda>xs. rev (sort xs))\<rparr>"

text \<open>
  Two triangles on the same three vertices, wound in opposite directions: they share all
  three edges.
\<close>

definition double_face :: mesh where
  "double_face =
     pair_strip\<lparr>verts := [0, 1, 2],
       calc_loop_triangles := [(0, 1, 2), (3, 4, 5)],
       loop_vert := (\<lambda>l. [0, 1, 2, 2, 1, 0] ! l),
       loop_edge := (\<lambda>l. [0, 1, 2, 1, 0, 2] ! l),
       link_loops_radial := (\<lambda>l. [[4], [3], [5], [1], [0], [2]] ! l),
       edge_verts := (\<lambda>e. [(0::nat, 1::nat), (1, 2), (2, 0)] ! e)\<rparr>"

text \<open>
  The two triangles with the first one degenerate (area 0), and parameters that switch
  the perimeter cost on.
\<close>

definition degenerate_pair :: mesh where
  "degenerate_pair = triangle_pair\<lparr>area_tri := (\<lambda>a b c. if a = 0 then 0 else 1)\<rparr>"

definition perimeter_params :: params where
  "perimeter_params = plain_params\<lparr>perimeter_cost_factor := 1\<rparr>"

section \<open>Evaluation\<close>

text \<open>
  The definitions a run on a concrete input unfolds. The runs below are evaluated by the
  simplifier, first the argument of each \<open>and_then\<close> and \<open>let\<close>, then its body.
\<close>

lemmas builder_defs = auto_segment_def calc_segment_contacts_def calc_vi2vgi2weights_def
  pair_shift_def tri_step_def loop_step_def radial_step_def enter_edge_def
  cost_vertex_group_weight_def calc_vertex_group_weight_cost_def
  calc_heaviest_vertex_group_index_def get_segment_def to_tri_loop_index_def
  to_loop_pair_id_def to_vertex_pair_id_def to_pair_id_def empty_builder_def no_edge_def
  new_segment_def cost_total_def py_div_def add_contact_id_def set_add_def
  group_weight_difference_def dict_get_def start_engine_def remaining_segments_def

lemmas engine_defs = while_merging.simps for_loop.simps rejected_def merge_segments_def remove_segment_contact_def
  discard_contact_id_def bisect_left_def bisect_left_between.simps delete_at_def insert_at_def
  segment_replace_def update_perimeter_def merge_group_def locate_def
  updated_cost_normalized_def reposition_def to_segment_pair_id_def Let_def

lemmas example_defs = plain_params_def pair_strip_def triangle_pair_def boundary_mesh_def
  faceless_mesh_def seam_strip_def seam_params_def lockout_params_def pair_state_def
  weighted_pair_def weight_params_def fan_mesh_def fan_params_def fan_params_descending_def
  double_face_def degenerate_pair_def perimeter_params_def degenerate_segs_def
  degenerate_contact_def

section \<open>Lemmas about the loops\<close>

lemma remove_segment_contact_keys:
  assumes "remove_segment_contact sci st = Inr st'"
  shows "sci \<in> set (sci2segment_contacts st)"
    and "sci2segment_contacts st' = removeAll sci (sci2segment_contacts st)"
  using assms
  by (auto simp: remove_segment_contact_def Let_def split: if_splits option.splits)

lemma merge_segments_keys:
  assumes "merge_segments p s sci st = Inr (st', isolated)"
  shows "set (sci2segment_contacts st') \<subset> set (sci2segment_contacts st)"
proof -
  define dst where "dst = segment0 (scs st sci)"
  define src where "src = segment1 (scs st sci)"
  define st3 where "st3 = st\<lparr>merging := True,
       last_merged_cost := cost_normalized (scs st sci),
       accepted := accepted st @ [(cost_normalized (scs st sci), area (segs st dst), area (segs st src))],
       segs := (segs st)(dst := (segs st dst)
         \<lparr>tri_loop0s := tri_loop0s (segs st dst) \<union> tri_loop0s (segs st src),
          area := area (segs st dst) + area (segs st src)\<rparr>)\<rparr>"
  from assms obtain st4 st5 where
    r: "remove_segment_contact sci st3 = Inr st4"
    and rp: "repoint src dst (set_iter p (segment_contact_ids (segs st4 src))) st4 = Inr st5"
    and tl: "(segment_contact_ids (segs st5 dst) = [] \<and>
              st' = st5\<lparr>result_segments := set_add dst (result_segments st5),
                    result_loop_count := result_loop_count st5 + card (tri_loop0s (segs st5 dst))\<rparr>)
          \<or> (\<exists>st6 groups. update_perimeter p dst st5 = Inr st6 \<and> merge_groups p groups st6 = Inr st')"
    unfolding merge_segments_def Let_def st3_def dst_def src_def
    by (auto simp: and_then_Inr_iff split: if_splits)
  from tl have f5: "frame st5 st'"
  proof
    assume "segment_contact_ids (segs st5 dst) = [] \<and>
              st' = st5\<lparr>result_segments := set_add dst (result_segments st5),
                    result_loop_count := result_loop_count st5 + card (tri_loop0s (segs st5 dst))\<rparr>"
    then show ?thesis by (simp add: frame_def)
  next
    assume "\<exists>st6 groups. update_perimeter p dst st5 = Inr st6 \<and> merge_groups p groups st6 = Inr st'"
    then obtain st6 groups where "update_perimeter p dst st5 = Inr st6"
      and "merge_groups p groups st6 = Inr st'" by blast
    then show ?thesis
      using update_perimeter_frame merge_groups_frame frame_trans by blast
  qed
  have "frame st4 st'" using repoint_frame[OF rp] f5 by (rule frame_trans)
  then have "set (sci2segment_contacts st') \<subseteq> set (sci2segment_contacts st4)"
    by (simp add: frame_def)
  moreover from remove_segment_contact_keys[OF r]
  have "sci \<in> set (sci2segment_contacts st)"
    and "set (sci2segment_contacts st4) = set (sci2segment_contacts st) - {sci}"
    by (auto simp: st3_def)
  ultimately show ?thesis by auto
qed


lemma for_loop_guard:
  "for_loop p s k st = Inr st' \<Longrightarrow> guard_holds p (accepted st)
     \<Longrightarrow> guard_holds p (accepted st')"
proof (induction p s k st rule: for_loop.induct)
  case (1 p s k st)
  show ?case
  proof (cases "k \<ge> length (cost_sorted_segment_contacts st)
       \<or> cost_normalized (scs st (cost_sorted_segment_contacts st ! k)) > cost_threshold p")
    case True
    with "1.prems" have "st' = st" by (subst (asm) for_loop.simps) (auto split: if_splits)
    with "1.prems" show ?thesis by simp
  next
    case running: False
    show ?thesis
    proof (cases "rejected p st (cost_sorted_segment_contacts st ! k)")
      case True
      with running "1.prems" have "for_loop p s (Suc k) st = Inr st'"
        by (subst (asm) for_loop.simps) simp
      from "1.IH"(1)[OF _ _ True this] running "1.prems" show ?thesis by simp
    next
      case False
      with running "1.prems" obtain st1 isolated where
        m: "merge_segments p s (cost_sorted_segment_contacts st ! k) st = Inr (st1, isolated)"
        and r: "if isolated then for_loop p s (Suc k) st1 = Inr st' else st' = st1"
        by (subst (asm) for_loop.simps) (auto split: sum.splits if_splits)
      from False "1.prems"(2) merge_segments_live(5)[OF m]
      have g: "guard_holds p (accepted st1)"
        by (auto simp: guard_holds_def rejected_def)
      show ?thesis
      proof (cases isolated)
        case True
        with r have "for_loop p s (Suc k) st1 = Inr st'" by simp
        from "1.IH"(2)[OF _ _ False m refl True this g] running show ?thesis by simp
      next
        case False
        with r g show ?thesis by simp
      qed
    qed
  qed
qed

lemma while_merging_guard:
  "while_merging p s st = Inr st' \<Longrightarrow> guard_holds p (accepted st)
     \<Longrightarrow> guard_holds p (accepted st')"
proof (induction p s st rule: while_merging.induct)
  case (1 p s st)
  from "1.prems"(1) obtain st1 where
    f: "for_loop p s 0 (st\<lparr>merging := False, passes := Suc (passes st)\<rparr>) = Inr st1"
    and r: "if merging st1 then while_merging p s st1 = Inr st' else st' = st1"
    by (subst (asm) while_merging.simps) (auto split: sum.splits if_splits)
  from for_loop_guard[OF f] "1.prems"(2) have g: "guard_holds p (accepted st1)" by simp
  show ?case
  proof (cases "merging st1")
    case True
    with r have "while_merging p s st1 = Inr st'" by simp
    from "1.IH"[OF f True this g] show ?thesis .
  next
    case False
    with r g show ?thesis by simp
  qed
qed

lemma auto_segment_guard:
  assumes "auto_segment p m = Inr r"
  shows "guard_holds p (merge_log r)"
proof -
  from assms obtain b n where
    c: "calc_segment_contacts p (calc_vi2vgi2weights m (ignore_vertex_group_indices p)) m
          (calc_loop_triangles m) = Inr (b, n)"
    by (auto simp: auto_segment_def and_then_Inr_iff)
  show ?thesis
  proof (cases "n = 0")
    case True
    with assms c show ?thesis by (auto simp: auto_segment_def guard_holds_def)
  next
    case False
    with assms c obtain s st where "while_merging p s (start_engine b) = Inr st"
      and "merge_log r = accepted st"
      by (auto simp: auto_segment_def and_then_Inr_iff)
    with while_merging_guard[of p s "start_engine b" st] show ?thesis
      by (simp add: start_engine_def guard_holds_def)
  qed
qed

lemma while_fuel_enough:
  "length (sci2segment_contacts st) < n \<Longrightarrow> while_fuel n p s st = Some (while_merging p s st)"
proof (induction n arbitrary: st)
  case 0
  then show ?case by simp
next
  case (Suc n)
  show ?case
  proof (cases "for_loop p s 0 (st\<lparr>merging := False, passes := Suc (passes st)\<rparr>)")
    case (Inl e)
    then show ?thesis by (subst while_merging.simps) simp
  next
    case (Inr st1)
    show ?thesis
    proof (cases "merging st1")
      case True
      with for_loop_live[OF Inr] Suc.prems
      have "length (sci2segment_contacts st1) < n" by simp
      from Suc.IH[OF this] Inr True show ?thesis
        by (subst while_merging.simps) simp
    next
      case False
      with Inr show ?thesis by (subst while_merging.simps) simp
    qed
  qed
qed


lemma while_merging_passes:
  "while_merging p s st = Inr st' \<Longrightarrow>
     passes st' \<le> passes st + Suc (length (sci2segment_contacts st))"
proof (induction p s st rule: while_merging.induct)
  case (1 p s st)
  from "1.prems"(1) obtain st1 where
    f: "for_loop p s 0 (st\<lparr>merging := False, passes := Suc (passes st)\<rparr>) = Inr st1"
    and r: "if merging st1 then while_merging p s st1 = Inr st' else st' = st1"
    by (subst (asm) while_merging.simps) (auto split: sum.splits if_splits)
  note l = for_loop_live[OF f]
  show ?case
  proof (cases "merging st1")
    case True
    with r have "while_merging p s st1 = Inr st'" by simp
    from "1.IH"[OF f True this] l True show ?thesis by simp
  next
    case False
    with r l show ?thesis by simp
  qed
qed

lemma pair_state_merge:
  "\<exists>st'. merge_segments plain_params 1 1 pair_state = Inr (st', True)"
  by (simp add: engine_defs example_defs set_add_def new_segment_def
        cong: let_weak_cong and_then_weak_cong split del: if_split)

lemma triangle_pair_build:
  "\<exists>b. calc_segment_contacts plain_params
          (calc_vi2vgi2weights triangle_pair (ignore_vertex_group_indices plain_params))
          triangle_pair (calc_loop_triangles triangle_pair) = Inr (b, 2)
       \<and> sci2segment_contacts b = [1] \<and> start_engine b = pair_state"
  by (simp add: builder_defs example_defs
        cong: let_weak_cong and_then_weak_cong split del: if_split)
     (simp add: numeral_2_eq_2)

lemma triangle_pair_run:
  "\<exists>r. auto_segment plain_params triangle_pair = Inr r \<and> merge_log r = [(0, 1, 1)]
       \<and> segments r = [1] \<and> pass_count r = 2"
  by (simp add: builder_defs engine_defs example_defs
        cong: let_weak_cong and_then_weak_cong split del: if_split)

section \<open>Lemmas about the perimeter cost\<close>

lemma area_to_circumference_pos:
  "0 < a \<Longrightarrow> \<exists>c. area_to_circumference a = Inr c \<and> 0 < c"
  by (simp add: area_to_circumference_def py_sqrt_def py_div_def SQRT_PI_def)

lemma py_div_pos: "0 < a \<Longrightarrow> 0 < b \<Longrightarrow> \<exists>q. py_div a b = Inr q \<and> 0 < q"
  by (simp add: py_div_def)

section \<open>Lemmas about the weight cache\<close>

lemma calc_vertex_group_weight_cost_sound:
  assumes "cache_sound vi2 sh P cache"
    and "inj_on (\<lambda>(u, v). to_vertex_pair_id u v sh) P"
    and "(u, v) \<in> P" and "vi2 u = Some wu" and "vi2 v = Some wv"
  shows "\<exists>cache'. calc_vertex_group_weight_cost vi2 sh u v cache
            = Inr (group_weight_difference wu wv, cache')
          \<and> cache_sound vi2 sh P cache'"
proof (cases "cache (to_vertex_pair_id u v sh)")
  case None
  let ?c = "cache(to_vertex_pair_id u v sh \<mapsto> group_weight_difference wu wv)"
  have "?c (to_vertex_pair_id u' v' sh) = None
      \<or> ?c (to_vertex_pair_id u' v' sh) = Some (group_weight_difference wu' wv')"
    if in_P: "(u', v') \<in> P" and wu': "vi2 u' = Some wu'" and wv': "vi2 v' = Some wv'"
    for u' v' wu' wv'
  proof (cases "to_vertex_pair_id u' v' sh = to_vertex_pair_id u v sh")
    case True
    with inj_onD[OF assms(2), of "(u', v')" "(u, v)"] assms(3) in_P
    have "(u', v') = (u, v)" by simp
    with assms(4,5) wu' wv' True show ?thesis by simp
  next
    case False
    with assms(1) in_P wu' wv' show ?thesis by (auto simp: cache_sound_def)
  qed
  then have "cache_sound vi2 sh P ?c"
    unfolding cache_sound_def by blast
  with None assms(4,5) show ?thesis
    by (auto simp: calc_vertex_group_weight_cost_def)
next
  case (Some x)
  with assms(1,3,4,5) have "x = group_weight_difference wu wv"
    by (auto simp: cache_sound_def)
  with Some assms(1) show ?thesis
    by (auto simp: calc_vertex_group_weight_cost_def)
qed

section \<open>Lemmas about the colours\<close>



section \<open>Lemmas about parallel contacts\<close>

lemma keeps_refl [simp]: "keeps st st"
  by (simp add: keeps_def)

lemma keeps_trans: "keeps a b \<Longrightarrow> keeps b c \<Longrightarrow> keeps a c"
  unfolding keeps_def by (intro conjI allI) (blast, simp, simp, blast)

lemma keeps_registered: "keeps st st' \<Longrightarrow> registered st \<Longrightarrow> registered st'"
  unfolding keeps_def registered_def by (metis IntI subsetD)

lemma keeps_no_parallel:
  "keeps st st' \<Longrightarrow> no_parallel_contacts st \<Longrightarrow> no_parallel_contacts st'"
  unfolding keeps_def no_parallel_contacts_def by (metis subsetD)

lemma remove_segment_contact_keeps:
  assumes "remove_segment_contact sci st = Inr st'"
  shows "keeps st st'" and "sci \<notin> set (sci2segment_contacts st')"
  using assms
  by (auto simp: keeps_def remove_segment_contact_def Let_def discard_contact_id_def
        split: if_splits option.splits)


lemma keeps_upd [simp]:
  "keeps (st\<lparr>scs := (scs st)(m := (scs st m)\<lparr>cost := a, sc_length := b\<rparr>)\<rparr>) st' = keeps st st'"
  "keeps st (st'\<lparr>scs := (scs st')(m := (scs st' m)\<lparr>cost_normalized := c\<rparr>)\<rparr>) = keeps st st'"
  "keeps st (st'\<lparr>i_var := iv\<rparr>) = keeps st st'"
  "keeps st (st'\<lparr>cost_sorted_segment_contacts := cs\<rparr>) = keeps st st'"
  "keeps st (st'\<lparr>result_segments := rs, result_loop_count := n\<rparr>) = keeps st st'"
  by (auto simp: keeps_def)

lemma fold_into_keeps:
  "fold_into m ids st = Inr st' \<Longrightarrow>
     keeps st st' \<and> set ids \<inter> set (sci2segment_contacts st') = {}"
proof (induction m ids st rule: fold_into.induct)
  case (1 m st)
  then show ?case by simp
next
  case (2 m sc rest st)
  then obtain st1 where
    r: "remove_segment_contact sc
          (st\<lparr>scs := (scs st)(m := (scs st m)
                \<lparr>cost := cost (scs st m) + cost (scs st sc),
                 sc_length := sc_length (scs st m) + sc_length (scs st sc)\<rparr>)\<rparr>) = Inr st1"
    and rest: "fold_into m rest st1 = Inr st'"
    by (auto simp: and_then_Inr_iff)
  from remove_segment_contact_keeps[OF r] have k1: "keeps st st1"
    and gone: "sc \<notin> set (sci2segment_contacts st1)" by simp_all
  from "2.IH"[OF rest] have k2: "keeps st1 st'"
    and d: "set rest \<inter> set (sci2segment_contacts st') = {}" by simp_all
  from k2 gone have "sc \<notin> set (sci2segment_contacts st')" by (auto simp: keeps_def)
  with d keeps_trans[OF k1 k2] show ?case by simp
qed

lemma reposition_keeps: "reposition st = Inr st' \<Longrightarrow> keeps st st'"
  by (auto simp: reposition_def Let_def split: option.splits if_splits)

lemma locate_keeps [simp]: "keeps st (locate m st') = keeps st st'"
  by (simp add: locate_def Let_def)

lemma locate_scs [simp]: "scs (locate m st) = scs st"
  by (simp add: locate_def Let_def)

lemma merge_group_keeps:
  assumes "merge_group p g st = Inr st'"
  shows "keeps st st'"
proof (cases "length g \<le> 1")
  case True
  with assms show ?thesis by (simp add: merge_group_def)
next
  case False
  with assms obtain m rest st1 c where it: "set_iter p g = m # rest"
    and f: "fold_into m rest st = Inr st1"
    and r: "reposition ((locate m st1)
               \<lparr>scs := (scs st1)(m := (scs st1 m)\<lparr>cost_normalized := c\<rparr>)\<rparr>) = Inr st'"
    by (auto simp: merge_group_def and_then_Inr_iff split: list.splits)
  from fold_into_keeps[OF f] have k1: "keeps st st1" by simp
  from reposition_keeps[OF r] have "keeps ((locate m st1)
               \<lparr>scs := (scs st1)(m := (scs st1 m)\<lparr>cost_normalized := c\<rparr>)\<rparr>) st'" .
  then have "keeps st1 st'" by (simp add: keeps_def locate_def Let_def)
  with k1 show ?thesis by (rule keeps_trans)
qed

lemma merge_group_collapses:
  assumes "merge_group p g st = Inr st'" and "\<not> length g \<le> 1"
    and "set (set_iter p g) = set g"
  shows "\<exists>m. set g \<inter> set (sci2segment_contacts st') \<subseteq> {m}"
proof -
  from assms(1,2) obtain m rest st1 c where it: "set_iter p g = m # rest"
    and f: "fold_into m rest st = Inr st1"
    and r: "reposition ((locate m st1)
               \<lparr>scs := (scs st1)(m := (scs st1 m)\<lparr>cost_normalized := c\<rparr>)\<rparr>) = Inr st'"
    by (auto simp: merge_group_def and_then_Inr_iff split: list.splits)
  from fold_into_keeps[OF f] have d: "set rest \<inter> set (sci2segment_contacts st1) = {}" by simp
  from reposition_keeps[OF r]
  have "set (sci2segment_contacts st') \<subseteq> set (sci2segment_contacts st1)"
    by (simp add: keeps_def locate_def Let_def)
  with d have "set rest \<inter> set (sci2segment_contacts st') = {}" by auto
  moreover from it assms(3) have "set g = insert m (set rest)" by auto
  ultimately have "set g \<inter> set (sci2segment_contacts st') \<subseteq> {m}" by auto
  then show ?thesis ..
qed

lemma update_perimeter_keeps: "update_perimeter p dst st = Inr st' \<Longrightarrow> keeps st st'"
  by (auto simp: update_perimeter_def Let_def keeps_def split: if_splits)

lemma redirect_idem [simp]: "redirect src dst (redirect src dst s) = redirect src dst s"
  by (simp add: redirect_def)

lemma segment_replace_ends:
  assumes "segment_replace sc src dst = (sc', replaced)"
  shows "segment0 sc' = redirect src dst (segment0 sc)"
    and "segment1 sc' = redirect src dst (segment1 sc)"
    and "replaced \<longleftrightarrow> segment0 sc = src \<or> segment1 sc = src"
  using assms by (auto simp: segment_replace_def redirect_def Let_def split: if_splits)

lemma repointed_step:
  assumes step: "set (sci2segment_contacts st1) \<subseteq> set (sci2segment_contacts st)"
    and other: "\<And>c. c \<noteq> x \<Longrightarrow> segment0 (scs st1 c) = segment0 (scs st c)
                           \<and> segment1 (scs st1 c) = segment1 (scs st c)"
    and here: "segment0 (scs st1 x) = redirect src dst (segment0 (scs st x))"
      "segment1 (scs st1 x) = redirect src dst (segment1 (scs st x))"
    and ids: "\<And>s. set (segment_contact_ids (segs st s)) \<inter> set (sci2segment_contacts st1)
            \<subseteq> set (segment_contact_ids (segs st1 s))"
    and reg: "x \<in> set (sci2segment_contacts st1)
            \<Longrightarrow> segment0 (scs st x) = src \<or> segment1 (scs st x) = src
            \<Longrightarrow> x \<in> set (segment_contact_ids (segs st1 dst))"
    and rest: "repointed src dst rest st1 st'"
  shows "repointed src dst (x # rest) st st'"
  unfolding repointed_def
proof (intro conjI allI ballI impI)
  from rest step show "set (sci2segment_contacts st') \<subseteq> set (sci2segment_contacts st)"
    by (auto simp: repointed_def)
next
  fix c assume "c \<notin> set (x # rest)"
  then have "c \<noteq> x" "c \<notin> set rest" by auto
  with rest other[of c] show "segment0 (scs st' c) = segment0 (scs st c)"
    and "segment1 (scs st' c) = segment1 (scs st c)"
    by (auto simp: repointed_def)
next
  fix c assume c: "c \<in> set (x # rest)"
  show "segment0 (scs st' c) = redirect src dst (segment0 (scs st c))"
  proof (cases "c \<in> set rest")
    case True
    with rest have "segment0 (scs st' c) = redirect src dst (segment0 (scs st1 c))"
      by (auto simp: repointed_def)
    with here(1) other[of c] show ?thesis by (cases "c = x") auto
  next
    case False
    with c have "c = x" by simp
    with False rest here(1) show ?thesis by (auto simp: repointed_def)
  qed
  show "segment1 (scs st' c) = redirect src dst (segment1 (scs st c))"
  proof (cases "c \<in> set rest")
    case True
    with rest have "segment1 (scs st' c) = redirect src dst (segment1 (scs st1 c))"
      by (auto simp: repointed_def)
    with here(2) other[of c] show ?thesis by (cases "c = x") auto
  next
    case False
    with c have "c = x" by simp
    with False rest here(2) show ?thesis by (auto simp: repointed_def)
  qed
next
  fix s
  from rest ids[of s]
  show "set (segment_contact_ids (segs st s)) \<inter> set (sci2segment_contacts st')
            \<subseteq> set (segment_contact_ids (segs st' s))"
    unfolding repointed_def by blast
next
  fix c assume c: "c \<in> set (x # rest)"
    and l: "c \<in> set (sci2segment_contacts st')
            \<and> (segment0 (scs st c) = src \<or> segment1 (scs st c) = src)"
  from rest l have l1: "c \<in> set (sci2segment_contacts st1)" by (auto simp: repointed_def)
  show "c \<in> set (segment_contact_ids (segs st' dst))"
  proof (cases "c = x")
    case True
    with reg l l1 have "c \<in> set (segment_contact_ids (segs st1 dst))" by simp
    with rest l show ?thesis unfolding repointed_def by blast
  next
    case False
    with c have in_rest: "c \<in> set rest" by simp
    from False other[of c] l
    have "segment0 (scs st1 c) = src \<or> segment1 (scs st1 c) = src" by simp
    with rest in_rest l show ?thesis unfolding repointed_def by blast
  qed
qed


lemma repointed_Nil [simp]: "repointed src dst [] st st"
  by (simp add: repointed_def)

lemma repoint_repointed:
  "repoint src dst xs st = Inr st' \<Longrightarrow> repointed src dst xs st st'"
proof (induction src dst xs st rule: repoint.induct)
  case (1 src dst st)
  then show ?case by simp
next
  case (2 src dst x rest st)
  obtain sc replaced where sr: "segment_replace (scs st x) src dst = (sc, replaced)"
    by (cases "segment_replace (scs st x) src dst")
  note ends = segment_replace_ends[OF sr]
  from "2.prems" have live: "x \<in> set (sci2segment_contacts st)"
    by (auto split: if_splits)
  show ?case
  proof (cases replaced)
    case False
    let ?st1 = "st\<lparr>scs := (scs st)(x := sc)\<rparr>"
    from False "2.prems" live sr have r: "repoint src dst rest ?st1 = Inr st'" by simp
    from "2.IH"(3)[OF _ sr[symmetric] _ r] live False
    have "repointed src dst rest ?st1 st'" by simp
    then show ?thesis
      using ends False by (intro repointed_step[where ?st1.0 = ?st1]) auto
  next
    case True
    show ?thesis
    proof (cases "segment0 sc = segment1 sc")
      case False
      let ?st1 = "st\<lparr>scs := (scs st)(x := sc), segs := add_contact_id dst x (segs st)\<rparr>"
      from False True "2.prems" live sr have r: "repoint src dst rest ?st1 = Inr st'" by simp
      from "2.IH"(2)[OF _ sr[symmetric] _ _ r] live True False
      have "repointed src dst rest ?st1 st'" by simp
      then show ?thesis
        using ends by (intro repointed_step[where ?st1.0 = ?st1])
          (auto simp: add_contact_id_def set_add_def)
    next
      case eq: True
      with "2.prems" live sr True obtain st2 where
        r: "remove_segment_contact x (st\<lparr>scs := (scs st)(x := sc)\<rparr>) = Inr st2"
        and rest: "repoint src dst rest st2 = Inr st'" and ne: "src \<noteq> dst"
        by (auto simp: and_then_Inr_iff split: if_splits)
      from "2.IH"(1)[OF _ sr[symmetric] _ _ ne rest] live True eq
      have rp: "repointed src dst rest st2 st'" by simp
      from remove_segment_contact_keeps[OF r]
      have k: "keeps (st\<lparr>scs := (scs st)(x := sc)\<rparr>) st2"
        and gone: "x \<notin> set (sci2segment_contacts st2)" by simp_all
      show ?thesis
      proof (rule repointed_step[where ?st1.0 = st2, OF _ _ _ _ _ _ rp])
        from k show "set (sci2segment_contacts st2) \<subseteq> set (sci2segment_contacts st)"
          by (simp add: keeps_def)
        from k ends show "segment0 (scs st2 x) = redirect src dst (segment0 (scs st x))"
          and "segment1 (scs st2 x) = redirect src dst (segment1 (scs st x))"
          by (simp_all add: keeps_def)
        from gone show "x \<in> set (sci2segment_contacts st2)
            \<Longrightarrow> segment0 (scs st x) = src \<or> segment1 (scs st x) = src
            \<Longrightarrow> x \<in> set (segment_contact_ids (segs st2 dst))" by simp
      next
        fix c assume "c \<noteq> x"
        with k show "segment0 (scs st2 c) = segment0 (scs st c)
                           \<and> segment1 (scs st2 c) = segment1 (scs st c)"
          by (simp add: keeps_def)
      next
        fix s
        from k show "set (segment_contact_ids (segs st s)) \<inter> set (sci2segment_contacts st2)
            \<subseteq> set (segment_contact_ids (segs st2 s))"
          by (simp add: keeps_def)
      qed
    qed
  qed
qed

lemma group_add_keys: "set (map fst (group_add k c gs)) = insert k (set (map fst gs))"
  by (induction k c gs rule: group_add.induct) auto

lemma group_add_distinct: "distinct (map fst gs) \<Longrightarrow> distinct (map fst (group_add k c gs))"
proof (induction k c gs rule: group_add.induct)
  case (1 spi c)
  then show ?case by simp
next
  case (2 spi c k cs gs)
  then show ?case using group_add_keys[of spi c gs] by auto
qed

lemma group_add_in: "in_group (group_add k c gs) k c"
  by (induction k c gs rule: group_add.induct) (auto simp: in_group_def set_add_def)

lemma group_add_mono: "in_group gs k' c' \<Longrightarrow> in_group (group_add k c gs) k' c'"
  by (induction k c gs rule: group_add.induct) (auto simp: in_group_def set_add_def)

lemma collect_mergable_groups:
  "collect_mergable sh st ys gs0 = Inr gs \<Longrightarrow> distinct (map fst gs0) \<Longrightarrow>
     distinct (map fst gs)
     \<and> (\<forall>c \<in> set ys. in_group gs
            (to_segment_pair_id (segment0 (scs st c)) (segment1 (scs st c)) sh) c)
     \<and> (\<forall>k c. in_group gs0 k c \<longrightarrow> in_group gs k c)"
proof (induction sh st ys gs0 rule: collect_mergable.induct)
  case (1 shift st gs)
  then show ?case by simp
next
  case (2 shift st edge_sci rest gs0)
  let ?k = "to_segment_pair_id (segment0 (scs st edge_sci)) (segment1 (scs st edge_sci)) shift"
  from "2.prems"(1) have live: "edge_sci \<in> set (sci2segment_contacts st)"
    and r: "collect_mergable shift st rest (group_add ?k edge_sci gs0) = Inr gs"
    by (auto split: if_splits)
  from "2.IH"[OF _ r group_add_distinct[OF "2.prems"(2)]] live
  have ih: "distinct (map fst gs)"
    "\<forall>c \<in> set rest. in_group gs
        (to_segment_pair_id (segment0 (scs st c)) (segment1 (scs st c)) shift) c"
    "\<forall>k c. in_group (group_add ?k edge_sci gs0) k c \<longrightarrow> in_group gs k c"
    by simp_all
  from ih(3) group_add_in have "in_group gs ?k edge_sci" by blast
  moreover from ih(3) group_add_mono have "\<forall>k c. in_group gs0 k c \<longrightarrow> in_group gs k c"
    by blast
  ultimately show ?case using ih(1,2) by simp
qed

lemma in_group_same:
  assumes "distinct (map fst gs)" and "in_group gs k c" and "in_group gs k c'"
  shows "\<exists>g. (k, g) \<in> set gs \<and> c \<in> set g \<and> c' \<in> set g"
  using assms unfolding in_group_def by (metis eq_key_imp_eq_value)

lemma merge_groups_keeps: "merge_groups p gs st = Inr st' \<Longrightarrow> keeps st st'"
proof (induction p gs st rule: merge_groups.induct)
  case (1 p st)
  then show ?case by simp
next
  case (2 p spi g gs st)
  then obtain st1 where g: "merge_group p g st = Inr st1" and r: "merge_groups p gs st1 = Inr st'"
    by (auto simp: and_then_Inr_iff)
  from merge_group_keeps[OF g] "2.IH"[OF r] show ?case by (rule keeps_trans)
qed

lemma merge_groups_collapses:
  "merge_groups p gs st = Inr st' \<Longrightarrow> \<forall>xs. set (set_iter p xs) = set xs
     \<Longrightarrow> (k, g) \<in> set gs \<Longrightarrow> c \<in> set g \<Longrightarrow> c' \<in> set g
     \<Longrightarrow> c \<in> set (sci2segment_contacts st') \<Longrightarrow> c' \<in> set (sci2segment_contacts st')
     \<Longrightarrow> c = c'"
proof (induction p gs st rule: merge_groups.induct)
  case (1 p st)
  then show ?case by simp
next
  case (2 p spi g0 gs st)
  from "2.prems"(1) obtain st1 where
    g: "merge_group p g0 st = Inr st1" and r: "merge_groups p gs st1 = Inr st'"
    by (auto simp: and_then_Inr_iff)
  show ?case
  proof (cases "(k, g) \<in> set gs")
    case True
    from "2.IH"[OF r "2.prems"(2) True "2.prems"(4-7)] show ?thesis .
  next
    case False
    with "2.prems"(3) have g0: "g0 = g" by simp
    from merge_groups_keeps[OF r]
    have sub: "set (sci2segment_contacts st') \<subseteq> set (sci2segment_contacts st1)"
      by (simp add: keeps_def)
    show ?thesis
    proof (cases "length g \<le> 1")
      case True
      with "2.prems"(4,5) show ?thesis by (cases g) auto
    next
      case False
      with merge_group_collapses[OF g] g0 "2.prems"(2)
      obtain m where "set g \<inter> set (sci2segment_contacts st1) \<subseteq> {m}" by auto
      with sub "2.prems"(4-7) show ?thesis by blast
    qed
  qed
qed

lemma to_pair_id_sym: "to_pair_id a b s = to_pair_id b a s"
  by (simp add: to_pair_id_def)

lemma to_segment_pair_id_ends:
  "{a, b} = {a', b'} \<Longrightarrow> to_segment_pair_id a b s = to_segment_pair_id a' b' s"
  by (auto simp: to_segment_pair_id_def doubleton_eq_iff to_pair_id_sym)

lemma repointed_ends:
  assumes rp: "repointed src dst xs st4 st5" and xs: "set xs = set (segment_contact_ids (segs st4 src))"
    and reg: "registered st4" and c: "c \<in> set (sci2segment_contacts st5)"
  shows "segment0 (scs st5 c) = redirect src dst (segment0 (scs st4 c))"
    and "segment1 (scs st5 c) = redirect src dst (segment1 (scs st4 c))"
proof -
  from rp c have c4: "c \<in> set (sci2segment_contacts st4)" by (auto simp: repointed_def)
  show "segment0 (scs st5 c) = redirect src dst (segment0 (scs st4 c))"
  proof (cases "c \<in> set xs")
    case True
    with rp show ?thesis by (simp add: repointed_def)
  next
    case False
    with xs reg c4 have "segment0 (scs st4 c) \<noteq> src" by (auto simp: registered_def)
    with rp False show ?thesis by (simp add: repointed_def redirect_def)
  qed
  show "segment1 (scs st5 c) = redirect src dst (segment1 (scs st4 c))"
  proof (cases "c \<in> set xs")
    case True
    with rp show ?thesis by (simp add: repointed_def)
  next
    case False
    with xs reg c4 have "segment1 (scs st4 c) \<noteq> src" by (auto simp: registered_def)
    with rp False show ?thesis by (simp add: repointed_def redirect_def)
  qed
qed

lemma repointed_registered:
  assumes rp: "repointed src dst xs st4 st5" and xs: "set xs = set (segment_contact_ids (segs st4 src))"
    and reg: "registered st4"
  shows "registered st5"
  unfolding registered_def
proof (intro ballI conjI)
  fix c assume c: "c \<in> set (sci2segment_contacts st5)"
  from rp c have c4: "c \<in> set (sci2segment_contacts st4)" by (auto simp: repointed_def)
  note e = repointed_ends[OF rp xs reg c]
  from rp have keep: "\<And>s. c \<in> set (segment_contact_ids (segs st4 s))
      \<Longrightarrow> c \<in> set (segment_contact_ids (segs st5 s))"
    using c unfolding repointed_def by blast
  from rp have add: "c \<in> set xs \<Longrightarrow> segment0 (scs st4 c) = src \<or> segment1 (scs st4 c) = src
      \<Longrightarrow> c \<in> set (segment_contact_ids (segs st5 dst))"
    using c unfolding repointed_def by blast
  from reg c4 have r0: "c \<in> set (segment_contact_ids (segs st4 (segment0 (scs st4 c))))"
    and r1: "c \<in> set (segment_contact_ids (segs st4 (segment1 (scs st4 c))))"
    by (simp_all add: registered_def)
  show "c \<in> set (segment_contact_ids (segs st5 (segment0 (scs st5 c))))"
  proof (cases "segment0 (scs st4 c) = src")
    case True
    with r0 xs have "c \<in> set xs" by simp
    with add True e(1) show ?thesis by (simp add: redirect_def)
  next
    case False
    with e(1) keep[OF r0] show ?thesis by (simp add: redirect_def)
  qed
  show "c \<in> set (segment_contact_ids (segs st5 (segment1 (scs st5 c))))"
  proof (cases "segment1 (scs st4 c) = src")
    case True
    with r1 xs have "c \<in> set xs" by simp
    with add True e(2) show ?thesis by (simp add: redirect_def)
  next
    case False
    with e(2) keep[OF r1] show ?thesis by (simp add: redirect_def)
  qed
qed

lemma repointed_far:
  assumes rp: "repointed src dst xs st4 st5" and xs: "set xs = set (segment_contact_ids (segs st4 src))"
    and reg: "registered st4" and np: "no_parallel_contacts st4"
    and c: "c \<in> set (sci2segment_contacts st5)" and c': "c' \<in> set (sci2segment_contacts st5)"
    and ne: "c \<noteq> c'"
    and same: "{segment0 (scs st5 c), segment1 (scs st5 c)}
             = {segment0 (scs st5 c'), segment1 (scs st5 c')}"
  shows "segment0 (scs st5 c) = dst \<or> segment1 (scs st5 c) = dst"
proof (rule ccontr)
  assume far: "\<not> (segment0 (scs st5 c) = dst \<or> segment1 (scs st5 c) = dst)"
  with same have far': "\<not> (segment0 (scs st5 c') = dst \<or> segment1 (scs st5 c') = dst)"
    by (auto simp: doubleton_eq_iff)
  note e = repointed_ends[OF rp xs reg c] and e' = repointed_ends[OF rp xs reg c']
  from far e have "segment0 (scs st5 c) = segment0 (scs st4 c)"
    and "segment1 (scs st5 c) = segment1 (scs st4 c)"
    by (auto simp: redirect_def split: if_splits)
  moreover from far' e' have "segment0 (scs st5 c') = segment0 (scs st4 c')"
    and "segment1 (scs st5 c') = segment1 (scs st4 c')"
    by (auto simp: redirect_def split: if_splits)
  ultimately have "{segment0 (scs st4 c), segment1 (scs st4 c)}
             = {segment0 (scs st4 c'), segment1 (scs st4 c')}" using same by simp
  moreover from rp c c' have "c \<in> set (sci2segment_contacts st4)"
    and "c' \<in> set (sci2segment_contacts st4)" by (auto simp: repointed_def)
  ultimately show False using np ne by (auto simp: no_parallel_contacts_def)
qed

lemma merge_step_keeps_contacts_apart:
  assumes m: "merge_segments p s sci st = Inr (st', isolated)"
    and perm: "\<forall>xs. set (set_iter p xs) = set xs"
    and reg: "registered st" and np: "no_parallel_contacts st"
  shows "registered st' \<and> no_parallel_contacts st'"
proof -
  define dst where "dst = segment0 (scs st sci)"
  define src where "src = segment1 (scs st sci)"
  define st3 where "st3 = st\<lparr>merging := True,
       last_merged_cost := cost_normalized (scs st sci),
       accepted := accepted st @ [(cost_normalized (scs st sci), area (segs st dst), area (segs st src))],
       segs := (segs st)(dst := (segs st dst)
         \<lparr>tri_loop0s := tri_loop0s (segs st dst) \<union> tri_loop0s (segs st src),
          area := area (segs st dst) + area (segs st src)\<rparr>)\<rparr>"
  from m obtain st4 st5 where
    r: "remove_segment_contact sci st3 = Inr st4"
    and rp0: "repoint src dst (set_iter p (segment_contact_ids (segs st4 src))) st4 = Inr st5"
    and tl: "(segment_contact_ids (segs st5 dst) = [] \<and>
              st' = st5\<lparr>result_segments := set_add dst (result_segments st5),
                    result_loop_count := result_loop_count st5 + card (tri_loop0s (segs st5 dst))\<rparr>)
          \<or> (segment_contact_ids (segs st5 dst) \<noteq> [] \<and>
             (\<exists>st6 groups. update_perimeter p dst st5 = Inr st6
                \<and> collect_mergable s st6 (set_iter p (segment_contact_ids (segs st6 dst))) []
                    = Inr groups
                \<and> merge_groups p groups st6 = Inr st'))"
    unfolding merge_segments_def Let_def st3_def dst_def src_def
    by (auto simp: and_then_Inr_iff split: if_splits)
  have reg3: "registered st3" using reg by (auto simp: registered_def st3_def)
  have np3: "no_parallel_contacts st3" using np by (simp add: no_parallel_contacts_def st3_def)
  note k34 = remove_segment_contact_keeps(1)[OF r]
  have reg4: "registered st4" using k34 reg3 by (rule keeps_registered)
  have np4: "no_parallel_contacts st4" using k34 np3 by (rule keeps_no_parallel)
  let ?xs = "set_iter p (segment_contact_ids (segs st4 src))"
  have rp: "repointed src dst ?xs st4 st5" using rp0 by (rule repoint_repointed)
  have xs: "set ?xs = set (segment_contact_ids (segs st4 src))" using perm by simp
  have reg5: "registered st5" using rp xs reg4 by (rule repointed_registered)
  note far = repointed_far[OF rp xs reg4 np4]
  from tl show ?thesis
  proof
    assume iso: "segment_contact_ids (segs st5 dst) = [] \<and>
              st' = st5\<lparr>result_segments := set_add dst (result_segments st5),
                    result_loop_count := result_loop_count st5 + card (tri_loop0s (segs st5 dst))\<rparr>"
    have "no_parallel_contacts st5"
      unfolding no_parallel_contacts_def
    proof (intro ballI impI notI)
      fix c c' assume c: "c \<in> set (sci2segment_contacts st5)"
        and c': "c' \<in> set (sci2segment_contacts st5)" and ne: "c \<noteq> c'"
        and same: "{segment0 (scs st5 c), segment1 (scs st5 c)}
             = {segment0 (scs st5 c'), segment1 (scs st5 c')}"
      from far[OF c c' ne same] reg5 c
      have "c \<in> set (segment_contact_ids (segs st5 dst))" by (auto simp: registered_def)
      with iso show False by simp
    qed
    with reg5 iso show ?thesis by (simp add: registered_def no_parallel_contacts_def)
  next
    assume "segment_contact_ids (segs st5 dst) \<noteq> [] \<and>
             (\<exists>st6 groups. update_perimeter p dst st5 = Inr st6
                \<and> collect_mergable s st6 (set_iter p (segment_contact_ids (segs st6 dst))) []
                    = Inr groups
                \<and> merge_groups p groups st6 = Inr st')"
    then obtain st6 groups where up: "update_perimeter p dst st5 = Inr st6"
      and co: "collect_mergable s st6 (set_iter p (segment_contact_ids (segs st6 dst))) []
                    = Inr groups"
      and mg: "merge_groups p groups st6 = Inr st'" by blast
    note k56 = update_perimeter_keeps[OF up]
    note k67 = merge_groups_keeps[OF mg]
    note k57 = keeps_trans[OF k56 k67]
    have reg6: "registered st6" using k56 reg5 by (rule keeps_registered)
    have reg7: "registered st'" using k67 reg6 by (rule keeps_registered)
    from collect_mergable_groups[OF co] have dk: "distinct (map fst groups)"
      and grp: "\<And>c. c \<in> set (set_iter p (segment_contact_ids (segs st6 dst)))
         \<Longrightarrow> in_group groups (to_segment_pair_id (segment0 (scs st6 c)) (segment1 (scs st6 c)) s) c"
      by simp_all
    have "no_parallel_contacts st'"
      unfolding no_parallel_contacts_def
    proof (intro ballI impI notI)
      fix c c' assume c: "c \<in> set (sci2segment_contacts st')"
        and c': "c' \<in> set (sci2segment_contacts st')" and ne: "c \<noteq> c'"
        and same: "{segment0 (scs st' c), segment1 (scs st' c)}
             = {segment0 (scs st' c'), segment1 (scs st' c')}"
      from k67 c c' have c6: "c \<in> set (sci2segment_contacts st6)"
        and c6': "c' \<in> set (sci2segment_contacts st6)" by (auto simp: keeps_def)
      from k57 c c' have c5: "c \<in> set (sci2segment_contacts st5)"
        and c5': "c' \<in> set (sci2segment_contacts st5)" by (auto simp: keeps_def)
      from k67 have e67: "\<And>x. segment0 (scs st' x) = segment0 (scs st6 x)"
        "\<And>x. segment1 (scs st' x) = segment1 (scs st6 x)" by (simp_all add: keeps_def)
      from k56 have e56: "\<And>x. segment0 (scs st6 x) = segment0 (scs st5 x)"
        "\<And>x. segment1 (scs st6 x) = segment1 (scs st5 x)" by (simp_all add: keeps_def)
      from same have same6: "{segment0 (scs st6 c), segment1 (scs st6 c)}
             = {segment0 (scs st6 c'), segment1 (scs st6 c')}" by (simp add: e67)
      then have same5: "{segment0 (scs st5 c), segment1 (scs st5 c)}
             = {segment0 (scs st5 c'), segment1 (scs st5 c')}" by (simp add: e56)
      from far[OF c5 c5' ne same5]
      have at: "segment0 (scs st6 c) = dst \<or> segment1 (scs st6 c) = dst" by (simp add: e56)
      with same6 have at': "segment0 (scs st6 c') = dst \<or> segment1 (scs st6 c') = dst"
        by (auto simp: doubleton_eq_iff)
      from at reg6 c6 have "c \<in> set (segment_contact_ids (segs st6 dst))"
        by (auto simp: registered_def)
      with perm have in_ys: "c \<in> set (set_iter p (segment_contact_ids (segs st6 dst)))" by simp
      from at' reg6 c6' have "c' \<in> set (segment_contact_ids (segs st6 dst))"
        by (auto simp: registered_def)
      with perm have in_ys': "c' \<in> set (set_iter p (segment_contact_ids (segs st6 dst)))" by simp
      from to_segment_pair_id_ends[OF same6]
      have "to_segment_pair_id (segment0 (scs st6 c)) (segment1 (scs st6 c)) s
          = to_segment_pair_id (segment0 (scs st6 c')) (segment1 (scs st6 c')) s" .
      with grp[OF in_ys] grp[OF in_ys'] in_group_same[OF dk]
      obtain k g where "(k, g) \<in> set groups" "c \<in> set g" "c' \<in> set g" by metis
      from merge_groups_collapses[OF mg perm this c c'] ne show False by simp
    qed
    with reg7 show ?thesis by simp
  qed
qed

lemma for_loop_keeps_contacts_apart:
  "for_loop p s k st = Inr st' \<Longrightarrow> \<forall>xs. set (set_iter p xs) = set xs
     \<Longrightarrow> registered st \<and> no_parallel_contacts st
     \<Longrightarrow> registered st' \<and> no_parallel_contacts st'"
proof (induction p s k st rule: for_loop.induct)
  case (1 p s k st)
  show ?case
  proof (cases "k \<ge> length (cost_sorted_segment_contacts st)
       \<or> cost_normalized (scs st (cost_sorted_segment_contacts st ! k)) > cost_threshold p")
    case True
    with "1.prems" have "st' = st" by (subst (asm) for_loop.simps) (auto split: if_splits)
    with "1.prems" show ?thesis by simp
  next
    case running: False
    show ?thesis
    proof (cases "rejected p st (cost_sorted_segment_contacts st ! k)")
      case True
      with running "1.prems" have "for_loop p s (Suc k) st = Inr st'"
        by (subst (asm) for_loop.simps) simp
      from "1.IH"(1)[OF _ _ True this "1.prems"(2,3)] running show ?thesis by simp
    next
      case False
      with running "1.prems" obtain st1 isolated where
        m: "merge_segments p s (cost_sorted_segment_contacts st ! k) st = Inr (st1, isolated)"
        and r: "if isolated then for_loop p s (Suc k) st1 = Inr st' else st' = st1"
        by (subst (asm) for_loop.simps) (auto split: sum.splits if_splits)
      from merge_step_keeps_contacts_apart[OF m "1.prems"(2)] "1.prems"(3)
      have g: "registered st1 \<and> no_parallel_contacts st1" by simp
      show ?thesis
      proof (cases isolated)
        case True
        with r have "for_loop p s (Suc k) st1 = Inr st'" by simp
        from "1.IH"(2)[OF _ _ False m refl True this "1.prems"(2) g] running show ?thesis by simp
      next
        case False
        with r g show ?thesis by simp
      qed
    qed
  qed
qed

lemma while_merging_keeps_contacts_apart:
  "while_merging p s st = Inr st' \<Longrightarrow> \<forall>xs. set (set_iter p xs) = set xs
     \<Longrightarrow> registered st \<and> no_parallel_contacts st
     \<Longrightarrow> registered st' \<and> no_parallel_contacts st'"
proof (induction p s st rule: while_merging.induct)
  case (1 p s st)
  from "1.prems"(1) obtain st1 where
    f: "for_loop p s 0 (st\<lparr>merging := False, passes := Suc (passes st)\<rparr>) = Inr st1"
    and r: "if merging st1 then while_merging p s st1 = Inr st' else st' = st1"
    by (subst (asm) while_merging.simps) (auto split: sum.splits if_splits)
  from "1.prems"(3)
  have "registered (st\<lparr>merging := False, passes := Suc (passes st)\<rparr>)
      \<and> no_parallel_contacts (st\<lparr>merging := False, passes := Suc (passes st)\<rparr>)"
    by (simp add: registered_def no_parallel_contacts_def)
  from for_loop_keeps_contacts_apart[OF f "1.prems"(2) this]
  have g: "registered st1 \<and> no_parallel_contacts st1" .
  show ?case
  proof (cases "merging st1")
    case True
    with r have "while_merging p s st1 = Inr st'" by simp
    from "1.IH"[OF f True this "1.prems"(2) g] show ?thesis .
  next
    case False
    with r g show ?thesis by simp
  qed
qed

lemma fan_mesh_first_merge:
  "\<exists>b. calc_segment_contacts fan_params
          (calc_vi2vgi2weights fan_mesh (ignore_vertex_group_indices fan_params))
          fan_mesh (calc_loop_triangles fan_mesh) = Inr (b, 3)
       \<and> registered (start_engine b) \<and> no_parallel_contacts (start_engine b)
       \<and> (\<exists>st'. merge_segments fan_params 1 1 (start_engine b) = Inr (st', False)
              \<and> sci2segment_contacts st' = [2])
       \<and> (\<exists>st''. while_merging fan_params 1 (start_engine b) = Inr st''
              \<and> sci2segment_contacts st'' = [])"
  by (simp add: builder_defs engine_defs example_defs registered_def no_parallel_contacts_def
        cong: let_weak_cong and_then_weak_cong split del: if_split)
     (simp add: doubleton_eq_iff)

section \<open>Lemmas about runs without a merge\<close>

lemma tri_walk_unselected:
  "\<forall>t \<in> set tri_loops. \<not> face_select m (loop_face m (fst t))
     \<Longrightarrow> tri_walk p m vi2 vs ls tri_loops state = Inr state"
proof (induction tri_loops)
  case Nil
  then show ?case by simp
next
  case (Cons t ts)
  then have "tri_step p m vi2 vs ls t state = Inr state"
    by (cases t; cases state) (simp add: tri_step_def)
  with Cons show ?case by simp
qed

lemma auto_segment_nothing_selected:
  assumes "verts m \<noteq> []" and "calc_loop_triangles m \<noteq> []"
    and "\<forall>t \<in> set (calc_loop_triangles m). \<not> face_select m (loop_face m (fst t))"
  shows "\<exists>r. auto_segment p m = Inr r \<and> segments r = [] \<and> remain_segment_contacts r = []
           \<and> result_last_merged_cost r = 0 \<and> result_tri_loops r = [] \<and> pass_count r = 0"
  using assms tri_walk_unselected[OF assms(3)]
  by (simp add: auto_segment_def calc_segment_contacts_def pair_shift_def empty_builder_def)

lemma for_loop_all_rejected:
  "\<forall>c \<in> set (cost_sorted_segment_contacts st). rejected p st c
     \<Longrightarrow> for_loop p s k st = Inr st"
proof (induction "length (cost_sorted_segment_contacts st) - k" arbitrary: k)
  case 0
  then show ?case by (subst for_loop.simps) simp
next
  case (Suc n)
  then have k: "k < length (cost_sorted_segment_contacts st)" by simp
  with Suc.prems have "rejected p st (cost_sorted_segment_contacts st ! k)" by simp
  moreover from Suc.hyps(2) have "n = length (cost_sorted_segment_contacts st) - Suc k" by simp
  from Suc.hyps(1)[OF this Suc.prems] have "for_loop p s (Suc k) st = Inr st" .
  ultimately show ?case using k by (subst for_loop.simps) simp
qed

lemma area_lockout_no_merge:
  assumes "\<forall>c \<in> set (cost_sorted_segment_contacts st). rejected p st c"
  shows "while_merging p s st = Inr (st\<lparr>merging := False, passes := Suc (passes st)\<rparr>)"
proof -
  have "for_loop p s 0 (st\<lparr>merging := False, passes := Suc (passes st)\<rparr>)
      = Inr (st\<lparr>merging := False, passes := Suc (passes st)\<rparr>)"
    using assms by (intro for_loop_all_rejected) (simp add: rejected_def)
  then show ?thesis by (subst while_merging.simps) simp
qed

section \<open>The claims\<close>

text \<open>
  C1, partition completeness: the member sets of the returned segments are pairwise
  disjoint and their union is the set of selected triangles; a selected triangle with no
  selected neighbour is returned as a segment of its own.

  The source puts a segment into the result at two places only: when a merge leaves it
  without contacts (lines 317-321) and when a remaining contact refers to it (line 364).
  A selected triangle that never had a contact gets a segment from the builder and is in
  neither set. At the selection boundary of the specification (two triangles share an
  edge, one of them is selected) the builder gives the selected triangle segment 1, and
  the result has no segment at all.
\<close>

theorem selection_boundary_result_is_empty:
  "\<exists>r. auto_segment plain_params boundary_mesh = Inr r
       \<and> tri_loop0s (segment_objects r 1) = {0} \<and> segments r = []"
  by (simp add: builder_defs engine_defs example_defs
        cong: let_weak_cong and_then_weak_cong split del: if_split)

text \<open>
  C2, as stated: for a contact with an endpoint of zero area or zero perimeter the
  perimeter cost is 0 and no division by zero happens; the error branch of the division
  cannot be reached. It fails: the source divides the perimeter by
  \<open>_area_to_circumference(area)\<close>, which is 0 for area 0, and has no guard. A mesh with
  a degenerate triangle next to a selected one reaches the division when the perimeter
  cost is switched on, and \<open>auto_segment\<close> raises.
\<close>

theorem perimeter_cost_zero_area_raises:
  "calc_perimeter_cost degenerate_segs degenerate_contact = Inl ZeroDivisionError
   \<and> auto_segment perimeter_params degenerate_pair = Inl ZeroDivisionError"
  by (simp add: builder_defs example_defs calc_perimeter_cost_def
        area_to_circumference_def py_sqrt_def SQRT_PI_def
        cong: let_weak_cong and_then_weak_cong split del: if_split)

text \<open>
  C2, amended: for a contact whose two endpoint segments have positive area and positive
  perimeter, the perimeter cost is computed without a division by zero and is at least 0.
\<close>

theorem calc_perimeter_cost_positive:
  assumes "0 < area (sg (segment0 sc))" and "0 < perimeter (sg (segment0 sc))"
    and "0 < area (sg (segment1 sc))" and "0 < perimeter (sg (segment1 sc))"
  shows "\<exists>r. calc_perimeter_cost sg sc = Inr r \<and> 0 \<le> r"
proof -
  from assms(1) obtain c0 where
    c0: "area_to_circumference (area (sg (segment0 sc))) = Inr c0" "0 < c0"
    using area_to_circumference_pos by blast
  from assms(3) obtain c1 where
    c1: "area_to_circumference (area (sg (segment1 sc))) = Inr c1" "0 < c1"
    using area_to_circumference_pos by blast
  from assms(2) c0 obtain r0 where
    r0: "py_div (perimeter (sg (segment0 sc))) c0 = Inr r0" "0 < r0"
    using py_div_pos by blast
  from assms(4) c1 obtain r1 where
    r1: "py_div (perimeter (sg (segment1 sc))) c1 = Inr r1" "0 < r1"
    using py_div_pos by blast
  from assms(1) r0 obtain q0 where q0: "py_div (area (sg (segment0 sc))) r0 = Inr q0" "0 < q0"
    using py_div_pos by blast
  from assms(3) r1 obtain q1 where q1: "py_div (area (sg (segment1 sc))) r1 = Inr q1" "0 < q1"
    using py_div_pos by blast
  from assms q0 q1 obtain mr where
    mr: "py_div (area (sg (segment0 sc)) + area (sg (segment1 sc))) (q0 + q1) = Inr mr" "0 < mr"
    using py_div_pos[of "area (sg (segment0 sc)) + area (sg (segment1 sc))" "q0 + q1"] by auto
  from assms obtain cm where
    cm: "area_to_circumference (area (sg (segment0 sc)) + area (sg (segment1 sc))) = Inr cm"
      "0 < cm"
    using area_to_circumference_pos[of "area (sg (segment0 sc)) + area (sg (segment1 sc))"]
    by auto
  have nz: "\<And>x y. 0 < y \<Longrightarrow> py_div x y = Inr (x / y)"
    by (simp add: py_div_def)
  show ?thesis
    by (simp add: calc_perimeter_cost_def Let_def c0(1) c1(1) r0(1) r1(1) q0(1) q1(1)
          mr(1) cm(1) nz[OF cm(2)] nz[OF mr(2)])
qed

theorem calc_perimeter_cost_positive_witness:
  "\<exists>r. calc_perimeter_cost unit_segs degenerate_contact = Inr r \<and> 0 \<le> r"
  using calc_perimeter_cost_positive [of unit_segs degenerate_contact]
  by (simp add: unit_segs_def)

text \<open>
  C7: for zero selected triangles \<open>auto_segment\<close> returns the empty partition and raises
  nothing.

  The source means to do so (lines 254-255), but the builder computes
  \<open>math.log2(3 * len(tri_loops))\<close> and \<open>math.log2(len(verts))\<close> before it looks at any
  face. On a mesh without faces, which has no selected triangle, that is \<open>math.log2(0)\<close>,
  and the call raises \<open>ValueError\<close>.
\<close>

theorem faceless_mesh_raises:
  "auto_segment plain_params faceless_mesh = Inl ValueError"
  by (simp add: builder_defs example_defs)

text \<open>
  C8, area lockout: with \<open>maximum_area_threshold = 0\<close> and every triangle larger than
  \<open>minimum_area_threshold\<close> no merge is accepted and the result has one segment for each
  selected triangle.

  No merge is accepted, but the result has a segment only for a triangle with a contact
  (the defect of C1): at the selection boundary the one selected triangle, of area 1, is
  missing from the result.
\<close>

theorem area_lockout_result_is_empty:
  "\<exists>r. auto_segment lockout_params boundary_mesh = Inr r
       \<and> merge_log r = [] \<and> tri_loop0s (segment_objects r 1) = {0} \<and> segments r = []"
  by (simp add: builder_defs engine_defs example_defs
        cong: let_weak_cong and_then_weak_cong split del: if_split)

text \<open>
  C3, area guard: whenever the merge engine accepts a merge, the source's area is at most
  \<open>minimum_area_threshold\<close> or the two areas together are at most
  \<open>maximum_area_threshold\<close>, with the destination the contact's first endpoint and the
  source its second; a contact that fails the guard is passed over and stays in the
  sorted list, which the scan goes on with unchanged.
\<close>

theorem area_guard_respected:
  "(auto_segment p m = Inr r \<longrightarrow> guard_holds p (merge_log r))
   \<and> (k < length (cost_sorted_segment_contacts st)
        \<and> cost_normalized (scs st (cost_sorted_segment_contacts st ! k)) \<le> cost_threshold p
        \<and> rejected p st (cost_sorted_segment_contacts st ! k)
      \<longrightarrow> for_loop p s k st = for_loop p s (Suc k) st
          \<and> cost_sorted_segment_contacts st ! k \<in> set (cost_sorted_segment_contacts st))"
proof (intro conjI impI)
  assume "auto_segment p m = Inr r"
  then show "guard_holds p (merge_log r)" by (rule auto_segment_guard)
next
  assume a: "k < length (cost_sorted_segment_contacts st)
        \<and> cost_normalized (scs st (cost_sorted_segment_contacts st ! k)) \<le> cost_threshold p
        \<and> rejected p st (cost_sorted_segment_contacts st ! k)"
  then show "for_loop p s k st = for_loop p s (Suc k) st"
    by (subst for_loop.simps) simp
  from a show "cost_sorted_segment_contacts st ! k \<in> set (cost_sorted_segment_contacts st)"
    by simp
qed

theorem area_guard_respected_witness:
  "(\<exists>r. auto_segment plain_params triangle_pair = Inr r \<and> merge_log r = [(0, 1, 1)]
        \<and> guard_holds plain_params (merge_log r))
   \<and> rejected lockout_params pair_state 1
   \<and> for_loop lockout_params 1 0 pair_state = for_loop lockout_params 1 (Suc 0) pair_state"
proof -
  from triangle_pair_run obtain r where
    r: "auto_segment plain_params triangle_pair = Inr r" "merge_log r = [(0, 1, 1)]" by blast
  from area_guard_respected [of plain_params triangle_pair r] r(1)
  have "guard_holds plain_params (merge_log r)" by blast
  moreover have rej: "rejected lockout_params pair_state 1"
    by (simp add: rejected_def example_defs)
  moreover from area_guard_respected [where p = lockout_params and k = 0 and st = pair_state and s = 1] rej
  have "for_loop lockout_params 1 0 pair_state = for_loop lockout_params 1 (Suc 0) pair_state"
    by (simp add: example_defs)
  ultimately show ?thesis using r by blast
qed




text \<open>
  C10, termination: every accepted merge removes at least one live contact and creates
  none, a pass without an accepted merge ends the outer loop, and so the outer loop makes
  at most one pass more than there are contacts at its start. The budget of the first
  conjunct covers a run that raises as well as one that returns.
\<close>

theorem outer_loop_terminates:
  "while_fuel (Suc (length (sci2segment_contacts st))) p s st = Some (while_merging p s st)
   \<and> (merge_segments p s sci st = Inr (st', isolated)
        \<longrightarrow> set (sci2segment_contacts st') \<subset> set (sci2segment_contacts st))
   \<and> (calc_segment_contacts p (calc_vi2vgi2weights m (ignore_vertex_group_indices p)) m
          (calc_loop_triangles m) = Inr (b, n) \<and> auto_segment p m = Inr r
        \<longrightarrow> pass_count r \<le> Suc (length (sci2segment_contacts b)))"
proof (intro conjI impI)
  show "while_fuel (Suc (length (sci2segment_contacts st))) p s st = Some (while_merging p s st)"
    by (rule while_fuel_enough) simp
next
  assume "merge_segments p s sci st = Inr (st', isolated)"
  then show "set (sci2segment_contacts st') \<subset> set (sci2segment_contacts st)"
    by (rule merge_segments_keys)
next
  assume a: "calc_segment_contacts p (calc_vi2vgi2weights m (ignore_vertex_group_indices p)) m
          (calc_loop_triangles m) = Inr (b, n) \<and> auto_segment p m = Inr r"
  show "pass_count r \<le> Suc (length (sci2segment_contacts b))"
  proof (cases "n = 0")
    case True
    with a show ?thesis by (auto simp: auto_segment_def)
  next
    case False
    with a obtain sh st1 where w: "while_merging p sh (start_engine b) = Inr st1"
      and "pass_count r = passes st1"
      by (auto simp: auto_segment_def and_then_Inr_iff)
    with while_merging_passes[OF w] show ?thesis by (simp add: start_engine_def)
  qed
qed

theorem outer_loop_terminates_witness:
  "(\<exists>st'. merge_segments plain_params 1 1 pair_state = Inr (st', True)
         \<and> set (sci2segment_contacts st') \<subset> set (sci2segment_contacts pair_state))
   \<and> (\<exists>r. auto_segment plain_params triangle_pair = Inr r \<and> pass_count r = 2
         \<and> pass_count r \<le> Suc (length [1::nat]))"
proof -
  from pair_state_merge obtain st' where
    m: "merge_segments plain_params 1 1 pair_state = Inr (st', True)" by blast
  from triangle_pair_run obtain r where
    r: "auto_segment plain_params triangle_pair = Inr r" "pass_count r = 2" by blast
  from triangle_pair_build obtain b where
    b: "calc_segment_contacts plain_params
          (calc_vi2vgi2weights triangle_pair (ignore_vertex_group_indices plain_params))
          triangle_pair (calc_loop_triangles triangle_pair) = Inr (b, 2)"
       "sci2segment_contacts b = [1]" by blast
  have "set (sci2segment_contacts st') \<subset> set (sci2segment_contacts pair_state)"
    using outer_loop_terminates [where p = plain_params and s = 1 and sci = 1
        and st = pair_state and st' = st' and isolated = True] m by blast
  moreover have "pass_count r \<le> Suc (length [1::nat])"
    using outer_loop_terminates [where p = plain_params and m = triangle_pair and b = b
        and n = 2 and r = r] b r(1) by simp
  ultimately show ?thesis using m r by blast
qed

text \<open>
  C5, as stated: the vertex-group weight term of a shared edge of length \<open>L\<close> is \<open>L\<close>
  times the average of the contribution of the side of A (the costs of the pairs
  \<open>(v0, far_A)\<close> and \<open>(v1, far_A)\<close>) and that of the side of B. It fails: the source
  multiplies the sum of the four pair costs by \<open>0.25\<close> (line 574), which is half that
  average. With weight 1 at the far vertex of A alone, the side of A contributes 2 and
  the side of B nothing; the contact gets the cost \<open>1/2\<close> where the claim gives 1.
\<close>

theorem weight_cost_is_quarter_of_sum:
  "map_sum id (\<lambda>(b, n). (sc_length (scs b 1), cost (scs b 1)))
     (calc_segment_contacts weight_params
        (calc_vi2vgi2weights weighted_pair (ignore_vertex_group_indices weight_params))
        weighted_pair (calc_loop_triangles weighted_pair)) = Inr (1, 1 / 2)
   \<and> spec_vertex_group_weight_cost 1
        (spec_pair_weight_difference [] [(7, 1)] + spec_pair_weight_difference [] [(7, 1)])
        (spec_pair_weight_difference [] [] + spec_pair_weight_difference [] []) = 1"
  by (simp add: builder_defs example_defs
        spec_vertex_group_weight_cost_def spec_pair_weight_difference_def
        cong: let_weak_cong and_then_weak_cong split del: if_split)

text \<open>
  C5, amended: the vertex-group weight term of a shared edge of length \<open>L\<close> is
  \<open>L * 0.25\<close> times the sum of the costs of the four pairs \<open>(v0, far_A)\<close>,
  \<open>(v1, far_A)\<close>, \<open>(v0, far_B)\<close>, \<open>(v1, far_B)\<close>, where the cost of a pair is the sum
  of the absolute weight differences over the groups of its first vertex plus that over
  the groups of its second vertex (groups of the ignore list left out). This is so when
  the ids of the four pairs tell them apart and the cache is sound for them.
\<close>

theorem vertex_group_weight_cost_value:
  assumes "edge_verts m (loop_edge m this_loop) = (v0, v1)"
    and "loop_vert m (link_loop_prev m this_loop) = far_A"
    and "vi2 v0 = Some w0" and "vi2 v1 = Some w1"
    and "vi2 far_A = Some wA" and "vi2 far_B = Some wB"
    and "inj_on (\<lambda>(u, v). to_vertex_pair_id u v sh)
           {(v0, far_A), (v1, far_A), (v0, far_B), (v1, far_B)}"
    and "cache_sound vi2 sh {(v0, far_A), (v1, far_A), (v0, far_B), (v1, far_B)} (vpi2weights b)"
    and "edge_length loc < 0"
  shows "\<exists>loc1 b1 cache.
           enter_edge m vi2 sh this_loop loc b = Inr (loc1, b1)
           \<and> cost_vertex_group_weight vi2 sh loc1 far_B (vpi2weights b1)
               = Inr (edge_calc_length m (loop_edge m this_loop) * 0.25
                        * (group_weight_difference w0 wA + group_weight_difference w1 wA
                           + group_weight_difference w0 wB + group_weight_difference w1 wB),
                      cache)"
proof -
  let ?P = "{(v0, far_A), (v1, far_A), (v0, far_B), (v1, far_B)}"
  from calc_vertex_group_weight_cost_sound[OF assms(8,7) _ assms(3,5)]
  obtain c1 where c1: "calc_vertex_group_weight_cost vi2 sh v0 far_A (vpi2weights b)
      = Inr (group_weight_difference w0 wA, c1)" and s1: "cache_sound vi2 sh ?P c1" by auto
  from calc_vertex_group_weight_cost_sound[OF s1 assms(7) _ assms(4,5)]
  obtain c2 where c2: "calc_vertex_group_weight_cost vi2 sh v1 far_A c1
      = Inr (group_weight_difference w1 wA, c2)" and s2: "cache_sound vi2 sh ?P c2" by auto
  from calc_vertex_group_weight_cost_sound[OF s2 assms(7) _ assms(3,6)]
  obtain c3 where c3: "calc_vertex_group_weight_cost vi2 sh v0 far_B c2
      = Inr (group_weight_difference w0 wB, c3)" and s3: "cache_sound vi2 sh ?P c3" by auto
  from calc_vertex_group_weight_cost_sound[OF s3 assms(7) _ assms(4,6)]
  obtain c4 where c4: "calc_vertex_group_weight_cost vi2 sh v1 far_B c3
      = Inr (group_weight_difference w1 wB, c4)" by auto
  from assms(1,2,9) c1 c2 c3 c4 show ?thesis
    by (simp add: enter_edge_def cost_vertex_group_weight_def algebra_simps)
qed

theorem vertex_group_weight_cost_value_witness:
  "\<exists>loc1 b1 cache.
     enter_edge weighted_pair (calc_vi2vgi2weights weighted_pair {}) 2 1 no_edge empty_builder
       = Inr (loc1, b1)
     \<and> cost_vertex_group_weight (calc_vi2vgi2weights weighted_pair {}) 2 loc1 3 (vpi2weights b1)
         = Inr (1 / 2, cache)"
  using vertex_group_weight_cost_value [where m = weighted_pair and this_loop = 1
      and ?v0.0 = 1 and ?v1.0 = 2 and far_A = 0 and far_B = 3
      and ?vi2.0 = "calc_vi2vgi2weights weighted_pair {}"
      and ?w0.0 = "[]" and ?w1.0 = "[]" and wA = "[(7, 1)]" and wB = "[]"
      and sh = 2 and b = empty_builder and loc = no_edge]
  by (simp add: example_defs weighted_pair_def calc_vi2vgi2weights_def cache_sound_def
        empty_builder_def no_edge_def to_vertex_pair_id_def to_pair_id_def
        group_weight_difference_def dict_get_def)




text \<open>
  C4, as stated: after the initial graph build and after every completed merge step no
  two live contacts connect the same unordered pair of live segments. It fails right after
  the build: the builder makes one contact for each shared edge and folds nothing (the
  folding of lines 328-359 is part of a merge). Two triangles that share all three edges
  start with three contacts between the same two segments.
\<close>

theorem double_face_builds_parallel_contacts:
  "map_sum id
     (\<lambda>(b, n). (map (\<lambda>c. (c, segment0 (scs b c), segment1 (scs b c))) (sci2segment_contacts b),
                no_parallel_contacts b))
     (calc_segment_contacts plain_params
        (calc_vi2vgi2weights double_face (ignore_vertex_group_indices plain_params))
        double_face (calc_loop_triangles double_face))
   = Inr ([(1, 1, 2), (2, 1, 2), (3, 1, 2)], False)"
  by (simp add: builder_defs example_defs no_parallel_contacts_def
        cong: let_weak_cong and_then_weak_cong split del: if_split)

text \<open>
  C4, amended: a completed merge step that starts without parallel contacts ends without
  parallel contacts, and so does a run of the outer loop; the contacts that the merge
  makes parallel are folded into one survivor before the scan goes on. This is so when
  every live contact is in the index sets of its two endpoints, which a merge step also
  keeps, and when enumerating a set yields its elements. The builder folds nothing: two
  selected triangles that share more than one edge start with parallel contacts.
\<close>

theorem merges_keep_contacts_apart:
  assumes "\<forall>xs. set (set_iter p xs) = set xs"
    and "registered st" and "no_parallel_contacts st"
  shows "(merge_segments p s sci st = Inr (st', isolated)
            \<longrightarrow> registered st' \<and> no_parallel_contacts st')
       \<and> (while_merging p s st = Inr st'' \<longrightarrow> registered st'' \<and> no_parallel_contacts st'')"
  using assms merge_step_keeps_contacts_apart while_merging_keeps_contacts_apart by blast

theorem merges_keep_contacts_apart_witness:
  "\<exists>b st' st''. calc_segment_contacts fan_params
          (calc_vi2vgi2weights fan_mesh (ignore_vertex_group_indices fan_params))
          fan_mesh (calc_loop_triangles fan_mesh) = Inr (b, 3)
       \<and> merge_segments fan_params 1 1 (start_engine b) = Inr (st', False)
       \<and> sci2segment_contacts st' = [2] \<and> no_parallel_contacts st'
       \<and> while_merging fan_params 1 (start_engine b) = Inr st'' \<and> no_parallel_contacts st''"
proof -
  from fan_mesh_first_merge obtain b st' st'' where
    b: "calc_segment_contacts fan_params
          (calc_vi2vgi2weights fan_mesh (ignore_vertex_group_indices fan_params))
          fan_mesh (calc_loop_triangles fan_mesh) = Inr (b, 3)"
    and inv: "registered (start_engine b)" "no_parallel_contacts (start_engine b)"
    and m: "merge_segments fan_params 1 1 (start_engine b) = Inr (st', False)"
      "sci2segment_contacts st' = [2]"
    and w: "while_merging fan_params 1 (start_engine b) = Inr st''" by blast
  have perm: "\<forall>xs. set (set_iter fan_params xs) = set xs"
    by (simp add: fan_params_def plain_params_def)
  from merges_keep_contacts_apart [OF perm inv, of 1 1 st' False st''] m(1) w
  have "no_parallel_contacts st'" and "no_parallel_contacts st''" by simp_all
  with b m w show ?thesis by blast
qed

end
